theory Spec2Isabelle
  imports Complex_Main "HOL-Library.Log_Nat"
begin

section \<open>The simulation kernel of the space shooter\<close>

text \<open>
  The embedding follows \<^verbatim>\<open>space_shooter.js\<close>. JavaScript numbers are modelled as
  \<^typ>\<open>real\<close>, counters that only ever count up from zero as \<^typ>\<open>nat\<close>. The arithmetic
  inside one call of an entity's \<^verbatim>\<open>update\<close> and of the collision pass (the motion, the
  fire timer of the player, the damage) is written exactly: what is proved of one call
  holds at the exact values of the program's doubles. Where the properties count how
  often a sum of times passes a threshold over many calls (the timer of the enemy
  spawner, the clock of the driving loop, and the tick size itself), every operation is
  rounded to the nearest double, as the program's arithmetic does it. NaN and the
  infinities are outside the model.

  Every \<^verbatim>\<open>Body\<close> takes its id from \<^verbatim>\<open>running_id++\<close>, and \<^verbatim>\<open>running_id\<close> is never reset,
  so an id names one object for the whole run of the program. The objects live in a store
  addressed by id; the global array \<^verbatim>\<open>entities\<close> is the list of the ids it currently
  holds, in ascending order (the order in which \<^verbatim>\<open>forEach\<close> and \<^verbatim>\<open>Object.values\<close>
  visit an array). An object that has left the array, or that belonged to the array of an
  earlier session, is still in the store, as it is still reachable in the program.
\<close>

subsection \<open>Double arithmetic\<close>

text \<open>
  \<open>double x\<close> is the double nearest to \<open>x\<close>, a tie going to the even significand
  (IEEE 754 binary64, the rounding of every JavaScript operation). Every finite double
  is an integer multiple of \<open>2 ^ - 1074\<close>; a double of \<open>b\<close> bits on this grid, \<open>b > 53\<close>, is a
  multiple of \<open>2 ^ (b - 53)\<close> grid steps. Numbers beyond the largest finite double (about
  \<open>1.8 * 10 ^ 308\<close>), which the program would turn into an infinity, are not singled out.
\<close>

definition round_half_even :: "real \<Rightarrow> int" where
  "round_half_even y =
     (let f = \<lfloor>y\<rfloor>; r = y - of_int f
      in if r < 1 / 2 then f else if 1 / 2 < r then f + 1 else if even f then f else f + 1)"

definition double_grid :: nat where
  "double_grid = 1074"

definition double :: "real \<Rightarrow> real" where
  "double x =
     (let s = x * 2 ^ double_grid;
          j = floorlog 2 (nat \<lfloor>\<bar>s\<bar>\<rfloor>) - 53
      in of_int (round_half_even (s / 2 ^ j)) * 2 ^ j / 2 ^ double_grid)"

subsection \<open>Configuration\<close>

definition canvas_size_width :: real where
  "canvas_size_width = 300"

definition canvas_size_height :: real where
  "canvas_size_height = 500"

definition update_rate_fps :: real where
  "update_rate_fps = 60"

text \<open>\<^verbatim>\<open>config.update_rate.seconds = 1 / config.update_rate.fps\<close>, a division of doubles.\<close>

definition update_rate_seconds :: real where
  "update_rate_seconds = double (1 / update_rate_fps)"

subsection \<open>Bodies\<close>

datatype variant = Projectile | Player | Enemy | BossEnemy

text \<open>
  One record for the four classes: \<open>variant\<close> is the class of the object (what
  \<^verbatim>\<open>instanceof\<close> tests; \<^verbatim>\<open>BossEnemy\<close> extends \<^verbatim>\<open>Body\<close>, not \<^verbatim>\<open>Enemy\<close>). The fields
  \<open>move_x\<close>, \<open>move_y\<close>, \<open>action_1\<close> (the controller), \<open>diag_speed\<close> and
  \<open>time_since_fired\<close> exist on a Player only and are read by \<^verbatim>\<open>Player.update\<close> only.
\<close>

record body =
  variant :: variant
  position_x :: real
  position_y :: real
  velocity_x :: real
  velocity_y :: real
  size_width :: real
  size_height :: real
  health :: real
  speed :: real
  move_x :: real
  move_y :: real
  action_1 :: bool
  diag_speed :: real
  time_since_fired :: real

record spawner =
  enemies :: nat
  time_between :: real
  time_since_spawn :: real
  bossSpawn :: bool
  bossTimer :: nat

text \<open>
  The global variables. \<open>collision_handler\<close> is true when the global is not null: the
  handler's field \<^verbatim>\<open>ent\<close> is the array \<^verbatim>\<open>entities\<close> itself, since \<^verbatim>\<open>start\<close> is the only
  place that assigns either and assigns both. \<open>random_values\<close> and \<open>random_calls\<close>
  stand for \<^verbatim>\<open>Math.random\<close>: the sequence of numbers it returns and how many were drawn.
  \<open>score\<close> and \<open>HighScore\<close> are assigned by \<^verbatim>\<open>loop\<close> at the end of the first tick, before
  any Player can be found dead.
\<close>

record world =
  objects :: "nat \<Rightarrow> body option"
  entities :: "nat list"
  queued_entities_for_removal :: "nat list"
  running_id :: nat
  player :: nat
  enemy_spawner :: "spawner option"
  collision_handler :: bool
  last_time :: "real option"
  loop_count :: nat
  enemiesKilled :: nat
  bossesKilled :: nat
  enemiesSpawned :: nat
  bossesSpawned :: nat
  timeAlive :: real
  score :: int
  HighScore :: int
  firstGame :: bool
  random_values :: "nat \<Rightarrow> real"
  random_calls :: nat

text \<open>\<^verbatim>\<open>entities[id] = this\<close> and \<^verbatim>\<open>delete entities[id]\<close> on the list of keys.\<close>

definition array_put :: "nat \<Rightarrow> nat list \<Rightarrow> nat list" where
  "array_put k ks = (if k \<in> set ks then ks else insort k ks)"

definition array_delete :: "nat \<Rightarrow> nat list \<Rightarrow> nat list" where
  "array_delete k ks = removeAll k ks"

text \<open>The constructor of \<^verbatim>\<open>Body\<close>: the defaults, the next id, the entry in \<^verbatim>\<open>entities\<close>.\<close>

definition Body_defaults :: "variant \<Rightarrow> body" where
  "Body_defaults v =
     \<lparr>variant = v, position_x = 0, position_y = 0, velocity_x = 0, velocity_y = 0,
      size_width = 10, size_height = 10, health = 100, speed = 0,
      move_x = 0, move_y = 0, action_1 = False, diag_speed = 0, time_since_fired = 0\<rparr>"

definition new_Body :: "body \<Rightarrow> world \<Rightarrow> world" where
  "new_Body b w =
     w\<lparr>objects := (objects w)(running_id w \<mapsto> b),
       entities := array_put (running_id w) (entities w),
       running_id := running_id w + 1\<rparr>"

definition half_size_width :: "body \<Rightarrow> real" where
  "half_size_width b = size_width b / 2"

definition half_size_height :: "body \<Rightarrow> real" where
  "half_size_height b = size_height b / 2"

definition isDead :: "body \<Rightarrow> bool" where
  "isDead b = (health b \<le> 0)"

definition Body_update :: "real \<Rightarrow> body \<Rightarrow> body" where
  "Body_update delta_time b =
     b\<lparr>position_x := position_x b + delta_time * velocity_x b,
       position_y := position_y b + delta_time * velocity_y b\<rparr>"

definition remove :: "nat \<Rightarrow> world \<Rightarrow> world" where
  "remove i w = w\<lparr>queued_entities_for_removal := queued_entities_for_removal w @ [i]\<rparr>"

text \<open>The two lines that end every \<^verbatim>\<open>update\<close> of a variant (clip to screen).\<close>

definition clip :: "body \<Rightarrow> body" where
  "clip b =
     b\<lparr>position_x := min (max 0 (position_x b)) canvas_size_width,
       position_y := min (max 0 (position_y b)) canvas_size_height\<rparr>"

subsection \<open>Projectile\<close>

text \<open>
  For each class, the fields of a new object (the field initialisers and the assignments
  of the constructor), then the constructor itself, which registers the object.
\<close>

definition Projectile_fields :: "real \<Rightarrow> real \<Rightarrow> body" where
  "Projectile_fields x y =
     (Body_defaults Projectile)
       \<lparr>speed := 10, position_x := x, position_y := y, size_width := 10, size_height := 20\<rparr>"

definition new_Projectile :: "real \<Rightarrow> real \<Rightarrow> world \<Rightarrow> world" where
  "new_Projectile x y w = new_Body (Projectile_fields x y) w"

definition Projectile_update :: "real \<Rightarrow> nat \<Rightarrow> world \<Rightarrow> world" where
  "Projectile_update delta_time i w =
     (case objects w i of
        None \<Rightarrow> w
      | Some b \<Rightarrow>
          let b1 = b\<lparr>position_y := position_y b - speed b\<rparr>;
              w1 = (if position_y b1 \<le> 0 then remove i w else w);
              b2 = Body_update delta_time b1
          in w1\<lparr>objects := (objects w1)(i \<mapsto> clip b2)\<rparr>)"

subsection \<open>Enemy and BossEnemy\<close>

definition Math_random :: "world \<Rightarrow> real \<times> world" where
  "Math_random w = (random_values w (random_calls w), w\<lparr>random_calls := random_calls w + 1\<rparr>)"

text \<open>\<open>r\<close> is the number that \<^verbatim>\<open>Math.random()\<close> returned to the constructor.\<close>

definition Enemy_fields :: "real \<Rightarrow> real \<Rightarrow> body" where
  "Enemy_fields sp r =
     (Body_defaults Enemy)
       \<lparr>speed := sp, position_x := r * canvas_size_width, position_y := - 50,
        size_width := 20, size_height := 20\<rparr>"

definition new_Enemy :: "real \<Rightarrow> world \<Rightarrow> world" where
  "new_Enemy sp w = (let (r, w1) = Math_random w in new_Body (Enemy_fields sp r) w1)"

definition BossEnemy_fields :: "real \<Rightarrow> real \<Rightarrow> body" where
  "BossEnemy_fields sp r =
     (Body_defaults BossEnemy)
       \<lparr>speed := sp, position_x := r * canvas_size_width, position_y := - 50,
        size_width := 25, size_height := 40, health := 1000\<rparr>"

definition new_BossEnemy :: "real \<Rightarrow> world \<Rightarrow> world" where
  "new_BossEnemy sp w = (let (r, w1) = Math_random w in new_Body (BossEnemy_fields sp r) w1)"

definition Enemy_update :: "real \<Rightarrow> nat \<Rightarrow> world \<Rightarrow> world" where
  "Enemy_update delta_time i w =
     (case objects w i of
        None \<Rightarrow> w
      | Some b \<Rightarrow>
          let b1 = b\<lparr>position_y := position_y b + speed b\<rparr>;
              w1 = (if position_y b1 \<ge> canvas_size_height then remove i w else w);
              b2 = Body_update delta_time b1
          in w1\<lparr>objects := (objects w1)(i \<mapsto> clip b2)\<rparr>)"

definition BossEnemy_update :: "real \<Rightarrow> nat \<Rightarrow> world \<Rightarrow> world" where
  "BossEnemy_update delta_time i w =
     (case objects w i of
        None \<Rightarrow> w
      | Some b \<Rightarrow>
          let b1 = b\<lparr>position_y := position_y b + speed b\<rparr>;
              w1 = (if position_y b1 \<ge> canvas_size_height then remove i w else w);
              b2 = Body_update delta_time b1
          in w1\<lparr>objects := (objects w1)(i \<mapsto> clip b2)\<rparr>)"

subsection \<open>Enemy spawner\<close>

definition new_Enemy_Spawner :: "nat \<Rightarrow> real \<Rightarrow> spawner" where
  "new_Enemy_Spawner n timeBetween =
     \<lparr>enemies = n, time_between = timeBetween, time_since_spawn = 0,
      bossSpawn = False, bossTimer = 0\<rparr>"

text \<open>The body of the \<^verbatim>\<open>for\<close> loop of \<^verbatim>\<open>Enemy_Spawner.update\<close>: one emitted unit.\<close>

definition spawn_unit :: "spawner \<times> world \<Rightarrow> spawner \<times> world" where
  "spawn_unit sw =
     (let (s, w) = sw in
      if bossSpawn s then
        (let w1 = new_BossEnemy 1 w;
             w2 = new_BossEnemy 2 w1;
             w3 = w2\<lparr>bossesSpawned := bossesSpawned w2 + 1\<rparr>
         in (s\<lparr>bossSpawn := False\<rparr>, w3))
      else
        (let w1 = new_Enemy 2 w;
             s1 = s\<lparr>bossTimer := bossTimer s + 1\<rparr>;
             w2 = w1\<lparr>enemiesSpawned := enemiesSpawned w1 + 1\<rparr>
         in if bossTimer s1 = 10
            then (s1\<lparr>bossSpawn := True, bossTimer := 0\<rparr>, w2)
            else (s1, w2)))"

fun spawn_loop :: "nat \<Rightarrow> spawner \<times> world \<Rightarrow> spawner \<times> world" where
  "spawn_loop 0 sw = sw"
| "spawn_loop (Suc n) sw = spawn_loop n (spawn_unit sw)"

text \<open>\<^verbatim>\<open>Enemy_Spawner.update\<close>; the sum \<^verbatim>\<open>time_since_spawn += delta_time\<close> is a sum of doubles.\<close>

definition Enemy_Spawner_update :: "real \<Rightarrow> spawner \<times> world \<Rightarrow> spawner \<times> world" where
  "Enemy_Spawner_update delta_time sw =
     (let (s, w) = sw;
          s1 = s\<lparr>time_since_spawn := double (time_since_spawn s + delta_time)\<rparr>
      in if time_since_spawn s1 \<ge> time_between s1
         then spawn_loop (enemies s1) (s1\<lparr>time_since_spawn := 0\<rparr>, w)
         else (s1, w))"

subsection \<open>Player and session start\<close>

definition Player_fields :: body where
  "Player_fields =
     (Body_defaults Player)
       \<lparr>speed := 5, diag_speed := 5 * cos (pi / 4), time_since_fired := 0,
        position_x := canvas_size_width / 2, position_y := canvas_size_height - 100,
        size_width := 20, size_height := 20\<rparr>"

text \<open>\<^verbatim>\<open>player = new Player()\<close>, as \<^verbatim>\<open>start\<close> does it.\<close>

definition new_Player :: "world \<Rightarrow> world" where
  "new_Player w = (new_Body Player_fields w)\<lparr>player := running_id w\<rparr>"

definition start :: "world \<Rightarrow> world" where
  "start w =
     (let w1 = w\<lparr>entities := [], queued_entities_for_removal := [], enemiesKilled := 0,
                 timeAlive := 0, bossesSpawned := 0, bossesKilled := 0, enemiesSpawned := 0\<rparr>;
          w2 = new_Player w1
      in w2\<lparr>enemy_spawner := Some (new_Enemy_Spawner 1 (double (55 / 100))),
            collision_handler := True\<rparr>)"

text \<open>
  \<^verbatim>\<open>Player.update\<close>, in the three parts the source marks with comments. The movement
  part changes the position by the controller's axes.
\<close>

definition Player_movement :: "body \<Rightarrow> body" where
  "Player_movement b =
     (if move_x b \<noteq> 0 \<and> move_y b \<noteq> 0
      then b\<lparr>position_x := position_x b + move_x b * diag_speed b,
             position_y := position_y b + move_y b * diag_speed b\<rparr>
      else b\<lparr>position_x := position_x b + move_x b * speed b,
             position_y := position_y b + move_y b * speed b\<rparr>)"

text \<open>What the method does when \<^verbatim>\<open>this.isDead()\<close>: it ends with \<^verbatim>\<open>start()\<close>.\<close>

definition Player_death :: "nat \<Rightarrow> world \<Rightarrow> world" where
  "Player_death i w =
     (let wr = remove i w;
          wf = (if firstGame wr then wr\<lparr>firstGame := False\<rparr> else wr);
          wh = (if score wf > HighScore wf then wf\<lparr>HighScore := score wf\<rparr> else wf)
      in start wh)"

text \<open>
  When the player is dead, \<^verbatim>\<open>start()\<close> has replaced the globals in the middle of the
  method; the method then goes on with \<^verbatim>\<open>this\<close>, the old player, and a Projectile it
  fires goes into the new \<^verbatim>\<open>entities\<close>.
\<close>

definition Player_update :: "real \<Rightarrow> nat \<Rightarrow> world \<Rightarrow> world" where
  "Player_update delta_time i w =
     (case objects w i of
        None \<Rightarrow> w
      | Some b \<Rightarrow>
          let b1 = Player_movement b;
              w1 = (if isDead b1 then Player_death i w else w);
              b2 = b1\<lparr>time_since_fired := time_since_fired b1 + delta_time\<rparr>;
              fire = (action_1 b2 \<and> time_since_fired b2 \<ge> 1 / 10);
              b3 = (if fire then b2\<lparr>time_since_fired := 0\<rparr> else b2);
              w2 = (if fire then new_Projectile (position_x b3) (position_y b3) w1 else w1);
              b4 = Body_update delta_time b3
          in w2\<lparr>objects := (objects w2)(i \<mapsto> clip b4)\<rparr>)"

subsection \<open>Collision handler\<close>

definition overlap :: "body \<Rightarrow> body \<Rightarrow> bool" where
  "overlap e1 e2 =
     (position_x e1 - half_size_width e1 < position_x e2 + half_size_width e2 \<and>
      position_x e1 + half_size_width e1 > position_x e2 - half_size_width e2 \<and>
      position_y e1 - half_size_height e1 < position_y e2 + half_size_height e2 \<and>
      position_y e1 + half_size_height e1 > position_y e2 - half_size_height e2)"

text \<open>
  \<open>damage i d w\<close> is \<^verbatim>\<open>e1.health -= d\<close> on the object \<open>i\<close>. The four rules below are the
  four \<^verbatim>\<open>if (e1 instanceof ...)\<close> blocks of the inner callback, in the order of the
  source; each reads \<^verbatim>\<open>e1.health\<close> as the blocks before it left it.
\<close>

definition damage :: "nat \<Rightarrow> real \<Rightarrow> world \<Rightarrow> world" where
  "damage i d w =
     (case objects w i of
        None \<Rightarrow> w
      | Some e \<Rightarrow> w\<lparr>objects := (objects w)(i \<mapsto> e\<lparr>health := health e - d\<rparr>)\<rparr>)"

definition health_of :: "nat \<Rightarrow> world \<Rightarrow> real" where
  "health_of i w = (case objects w i of None \<Rightarrow> 0 | Some e \<Rightarrow> health e)"

definition variant_of :: "nat \<Rightarrow> world \<Rightarrow> variant option" where
  "variant_of i w = map_option variant (objects w i)"

definition rule_Player :: "nat \<Rightarrow> nat \<Rightarrow> world \<Rightarrow> world" where
  "rule_Player i j w =
     (if variant_of i w = Some Player then
        (let w1 = (if variant_of j w = Some Enemy then damage i 25 w else w)
         in if variant_of j w1 = Some BossEnemy then damage i 100 w1 else w1)
      else w)"

definition rule_Enemy :: "nat \<Rightarrow> nat \<Rightarrow> world \<Rightarrow> world" where
  "rule_Enemy i j w =
     (if variant_of i w = Some Enemy then
        (if variant_of j w = Some Player \<or> variant_of j w = Some Projectile then
           (let w1 = damage i 100 w
            in if health_of i w1 \<le> 0
               then (remove i w1)\<lparr>enemiesKilled := enemiesKilled w1 + 1\<rparr>
               else w1)
         else w)
      else w)"

definition rule_BossEnemy_7 :: "nat \<Rightarrow> nat \<Rightarrow> world \<Rightarrow> world" where
  "rule_BossEnemy_7 i j w =
     (if variant_of i w = Some BossEnemy then
        (if variant_of j w = Some Projectile then
           (let w1 = damage i 7 w
            in if health_of i w1 \<le> 0
               then (remove i w1)\<lparr>enemiesKilled := enemiesKilled w1 + 1,
                                  bossesKilled := bossesKilled w1 + 1\<rparr>
               else remove j w1)
         else w)
      else w)"

definition rule_BossEnemy_100 :: "nat \<Rightarrow> nat \<Rightarrow> world \<Rightarrow> world" where
  "rule_BossEnemy_100 i j w =
     (if variant_of i w = Some BossEnemy then
        (if variant_of j w = Some Projectile then
           (let w1 = damage i 100 w
            in if health_of i w1 \<le> 0
               then (remove i w1)\<lparr>enemiesKilled := enemiesKilled w1 + 1,
                                  bossesKilled := bossesKilled w1 + 1\<rparr>
               else w1)
         else w)
      else w)"

text \<open>The inner callback on the pair \<open>(e1, e2)\<close>; \<^verbatim>\<open>e1 != e2\<close> compares the objects.\<close>

definition collide_pair :: "nat \<Rightarrow> nat \<Rightarrow> world \<Rightarrow> world" where
  "collide_pair i j w =
     (case (objects w i, objects w j) of
        (Some e1, Some e2) \<Rightarrow>
          if i \<noteq> j \<and> overlap e1 e2
          then rule_BossEnemy_100 i j (rule_BossEnemy_7 i j (rule_Enemy i j (rule_Player i j w)))
          else w
      | _ \<Rightarrow> w)"

definition Collision_Handler_update :: "world \<Rightarrow> world" where
  "Collision_Handler_update w =
     fold (\<lambda>i. fold (\<lambda>j. collide_pair i j) (entities w)) (entities w) w"

text \<open>
  The second source file holds an earlier version of the game, without BossEnemy. Its
  collision handler tests the overlap on position and size (not on half sizes), and an
  Enemy that is hit is removed at once; \<^verbatim>\<open>enemiesKilled\<close> counts the hits by a Projectile.
\<close>

definition overlap_part_000 :: "body \<Rightarrow> body \<Rightarrow> bool" where
  "overlap_part_000 e1 e2 =
     (position_x e1 < position_x e2 + size_width e2 \<and>
      position_x e1 + size_width e1 > position_x e2 \<and>
      position_y e1 < position_y e2 + size_height e2 \<and>
      position_y e1 + size_height e1 > position_y e2)"

definition rule_Player_part_000 :: "nat \<Rightarrow> nat \<Rightarrow> world \<Rightarrow> world" where
  "rule_Player_part_000 i j w =
     (if variant_of i w = Some Player then
        (if variant_of j w = Some Enemy then damage i 25 w else w)
      else w)"

definition rule_Enemy_part_000 :: "nat \<Rightarrow> nat \<Rightarrow> world \<Rightarrow> world" where
  "rule_Enemy_part_000 i j w =
     (if variant_of i w = Some Enemy then
        (if variant_of j w = Some Player \<or> variant_of j w = Some Projectile then
           (let w1 = remove i w
            in if variant_of j w1 = Some Projectile
               then w1\<lparr>enemiesKilled := enemiesKilled w1 + 1\<rparr>
               else w1)
         else w)
      else w)"

definition collide_pair_part_000 :: "nat \<Rightarrow> nat \<Rightarrow> world \<Rightarrow> world" where
  "collide_pair_part_000 i j w =
     (case (objects w i, objects w j) of
        (Some e1, Some e2) \<Rightarrow>
          if i \<noteq> j \<and> overlap_part_000 e1 e2
          then rule_Enemy_part_000 i j (rule_Player_part_000 i j w)
          else w
      | _ \<Rightarrow> w)"

definition Collision_Handler_update_part_000 :: "world \<Rightarrow> world" where
  "Collision_Handler_update_part_000 w =
     fold (\<lambda>i. fold (\<lambda>j. collide_pair_part_000 i j) (entities w)) (entities w) w"

subsection \<open>The tick and the driving loop\<close>

definition entity_update :: "real \<Rightarrow> nat \<Rightarrow> world \<Rightarrow> world" where
  "entity_update delta_time i w =
     (case variant_of i w of
        None \<Rightarrow> w
      | Some Projectile \<Rightarrow> Projectile_update delta_time i w
      | Some Player \<Rightarrow> Player_update delta_time i w
      | Some Enemy \<Rightarrow> Enemy_update delta_time i w
      | Some BossEnemy \<Rightarrow> BossEnemy_update delta_time i w)"

text \<open>The flush of the removal queue, the third step of \<^verbatim>\<open>update\<close>.\<close>

definition flush_removals :: "world \<Rightarrow> world" where
  "flush_removals w =
     w\<lparr>entities := fold array_delete (queued_entities_for_removal w) (entities w),
       queued_entities_for_removal := []\<rparr>"

definition run_spawner :: "real \<Rightarrow> world \<Rightarrow> world" where
  "run_spawner delta_time w =
     (case enemy_spawner w of
        None \<Rightarrow> w
      | Some s \<Rightarrow> (let (s', w') = Enemy_Spawner_update delta_time (s, w)
                   in w'\<lparr>enemy_spawner := Some s'\<rparr>))"

text \<open>
  \<^verbatim>\<open>update(delta_time)\<close>: \<^verbatim>\<open>Object.values(entities)\<close> is taken once, so the bodies
  updated are those of the array as it was when the tick began.
\<close>

definition update :: "real \<Rightarrow> world \<Rightarrow> world" where
  "update delta_time w =
     (let w1 = fold (entity_update delta_time) (entities w) w;
          w2 = (if collision_handler w1 then Collision_Handler_update w1 else w1);
          w3 = flush_removals w2
      in run_spawner delta_time w3)"

text \<open>
  The body of the \<^verbatim>\<open>while\<close> loop of \<^verbatim>\<open>loop\<close> (drawing and the HUD are left out); the
  score is computed in doubles before \<^verbatim>\<open>Math.floor\<close>.
\<close>

definition loop_body :: "real \<Rightarrow> world \<Rightarrow> world" where
  "loop_body curr_time w =
     (let w1 = update update_rate_seconds w;
          w2 = w1\<lparr>last_time := Some curr_time, loop_count := loop_count w1 + 1\<rparr>;
          w3 = w2\<lparr>score := \<lfloor>double (double (30 * real (enemiesKilled w2)) + timeAlive w2)\<rfloor>\<rparr>
      in if firstGame w3 then w3\<lparr>HighScore := 0\<rparr> else w3)"

text \<open>
  The \<^verbatim>\<open>while\<close> loop, with \<^verbatim>\<open>delta_time -= config.update_rate.seconds\<close> as a difference
  of doubles. When \<open>delta_time\<close> is so large that the difference rounds back to it the loop
  never ends: the result \<open>None\<close> is the call that does not return.
\<close>

partial_function (option) loop_while :: "real \<Rightarrow> real \<Rightarrow> world \<Rightarrow> world option" where
  "loop_while delta_time curr_time w =
     (if delta_time > update_rate_seconds
      then loop_while (double (delta_time - update_rate_seconds)) curr_time (loop_body curr_time w)
      else Some w)"

text \<open>
  \<^verbatim>\<open>loop(curr_time)\<close>, one callback of the driving clock; \<open>curr_time_ms\<close> is the time in
  milliseconds that the clock passes in, a double.
\<close>

definition loop :: "real \<Rightarrow> world \<Rightarrow> world option" where
  "loop curr_time_ms w =
     (let curr_time = double (curr_time_ms / 1000);
          lt = (case last_time w of None \<Rightarrow> curr_time | Some t \<Rightarrow> t);
          w1 = w\<lparr>last_time := Some lt\<rparr>;
          delta_time = double (curr_time - lt);
          w2 = w1\<lparr>timeAlive := double (timeAlive w1 + delta_time)\<rparr>
      in loop_while delta_time curr_time w2)"

text \<open>
  The loop variable \<^verbatim>\<open>delta_time\<close> after \<open>j\<close> passes of the \<^verbatim>\<open>while\<close> loop entered with the
  value \<open>delta\<close>.
\<close>

definition delta_after :: "nat \<Rightarrow> real \<Rightarrow> real" where
  "delta_after j delta = ((\<lambda>d. double (d - update_rate_seconds)) ^^ j) delta"

text \<open>The driving clock calls \<^verbatim>\<open>loop\<close> at the times \<open>ts\<close>, one call after the other.\<close>

definition callbacks :: "real list \<Rightarrow> world \<Rightarrow> world option" where
  "callbacks ts w = fold (\<lambda>t r. Option.bind r (loop t)) ts (Some w)"

subsection \<open>The program's initial state, and what an operation created\<close>

text \<open>
  The globals as the script declares them, before \<^verbatim>\<open>start()\<close> runs for the first time
  (\<^verbatim>\<open>entities\<close> and the queue are still null there; \<^verbatim>\<open>start\<close> replaces both). The random
  sequence is an input of the program; the one here always returns one half.
\<close>

definition initial_world :: world where
  "initial_world =
     \<lparr>objects = (\<lambda>i. None), entities = [], queued_entities_for_removal = [],
      running_id = 0, player = 0, enemy_spawner = None, collision_handler = False,
      last_time = None, loop_count = 0, enemiesKilled = 0, bossesKilled = 0,
      enemiesSpawned = 0, bossesSpawned = 0, timeAlive = 0, score = 0, HighScore = 0,
      firstGame = True, random_values = (\<lambda>n. 1 / 2), random_calls = 0\<rparr>"

text \<open>
  The controller of the player \<open>i\<close> as the input handler's key events left it: the input
  handler itself is outside the kernel, the kernel reads the three values.
\<close>

definition set_controller :: "real \<Rightarrow> real \<Rightarrow> bool \<Rightarrow> nat \<Rightarrow> world \<Rightarrow> world" where
  "set_controller mx my a i w =
     (case objects w i of
        None \<Rightarrow> w
      | Some b \<Rightarrow> w\<lparr>objects := (objects w)(i \<mapsto> b\<lparr>move_x := mx, move_y := my, action_1 := a\<rparr>)\<rparr>)"

text \<open>
  The bodies constructed between the state \<open>w\<close> and the later state \<open>w'\<close>, in the order
  of their construction: those whose id was handed out in between.
\<close>

definition created :: "world \<Rightarrow> world \<Rightarrow> body list" where
  "created w w' = List.map_filter (objects w') [running_id w ..< running_id w']"

text \<open>
  A registry for the collision pass: the Player of a new session where \<^verbatim>\<open>start\<close> puts
  it, a BossEnemy of health 1000 that has come down to \<open>y = 100\<close>, and one Projectile at
  the same place.
\<close>

definition boss_hit_scene :: world where
  "boss_hit_scene =
     (start initial_world)
       \<lparr>objects := (objects (start initial_world))
            (1 \<mapsto> (BossEnemy_fields 1 (1 / 2))\<lparr>position_y := 100\<rparr>,
             2 \<mapsto> Projectile_fields 150 100),
        entities := [0, 1, 2],
        running_id := 3\<rparr>"

text \<open>
  What the \<open>u\<close>-th unit emitted by a new spawner is, as the classes of the bodies
  constructed: the units 11, 22, 33, ... are two BossEnemies, every other unit is one
  Enemy.
\<close>

definition unit_variants :: "nat \<Rightarrow> variant list" where
  "unit_variants u = (if u mod 11 = 0 then [BossEnemy, BossEnemy] else [Enemy])"

subsection \<open>Relations between two states\<close>

text \<open>
  \<open>health_not_increased w w'\<close>: every body that exists in \<open>w\<close> (its id has been handed
  out and the store holds it) still exists in \<open>w'\<close>, with a health that is not larger.
\<close>

definition health_not_increased :: "world \<Rightarrow> world \<Rightarrow> bool" where
  "health_not_increased w w' \<longleftrightarrow>
     running_id w \<le> running_id w' \<and>
     (\<forall>i < running_id w. \<forall>b. objects w i = Some b \<longrightarrow>
        (\<exists>b'. objects w' i = Some b' \<and> health b' \<le> health b))"

text \<open>\<open>clock_kept w w'\<close>: the tick counter and \<open>last_time\<close> are the same in both.\<close>

definition clock_kept :: "world \<Rightarrow> world \<Rightarrow> bool" where
  "clock_kept w w' \<longleftrightarrow> loop_count w' = loop_count w \<and> last_time w' = last_time w"

text \<open>
  \<open>same_collision_input w w'\<close>: the two states have the same registry (the same ids in
  the same order, and equal bodies under these ids), the same removal queue and the same
  kill counters. Nothing is said about the rest of the two states.
\<close>

definition agree_on :: "nat set \<Rightarrow> world \<Rightarrow> world \<Rightarrow> bool" where
  "agree_on S w w' \<longleftrightarrow>
     (\<forall>i \<in> S. objects w i = objects w' i) \<and>
     queued_entities_for_removal w = queued_entities_for_removal w' \<and>
     enemiesKilled w = enemiesKilled w' \<and>
     bossesKilled w = bossesKilled w'"

definition same_collision_input :: "world \<Rightarrow> world \<Rightarrow> bool" where
  "same_collision_input w w' \<longleftrightarrow>
     entities w = entities w' \<and> agree_on (set (entities w)) w w'"

section \<open>Properties\<close>

subsection \<open>Evaluating the rounding\<close>

lemma round_half_even_of_int [simp]: "round_half_even (of_int z) = z"
  by (simp add: round_half_even_def)

lemma round_half_even_near:
  assumes "\<bar>y - of_int m\<bar> < 1 / 2"
  shows "round_half_even y = m"
proof (cases "of_int m \<le> y")
  case True
  with assms have "\<lfloor>y\<rfloor> = m"
    by (intro floor_unique) linarith+
  with assms True show ?thesis
    by (simp add: round_half_even_def)
next
  case False
  have "of_int (m - 1) \<le> y" "y < of_int (m - 1) + 1"
    using assms False by linarith+
  then have f: "\<lfloor>y\<rfloor> = m - 1"
    by (rule floor_unique)
  have "1 / 2 < y - of_int (m - 1)"
    using assms False by linarith
  then show ?thesis
    by (simp add: round_half_even_def f)
qed

lemma round_half_even_tie:
  assumes "y = of_int f + 1 / 2"
  shows "round_half_even y = (if even f then f else f + 1)"
proof -
  have "\<lfloor>y\<rfloor> = f"
    using assms by (intro floor_unique) simp_all
  then show ?thesis
    using assms by (simp add: round_half_even_def)
qed

text \<open>A number with at most 53 significant bits, on the grid, is a double.\<close>

lemma double_exactI:
  assumes x: "x = of_int m / 2 ^ q" and m: "\<bar>m\<bar> < 2 ^ 53" and q: "q \<le> double_grid"
  shows "double x = x"
proof -
  define d where "d = double_grid - q"
  define j where "j = floorlog 2 (nat \<lfloor>\<bar>x * 2 ^ double_grid\<bar>\<rfloor>) - 53"
  have p: "(2::real) ^ double_grid = 2 ^ q * 2 ^ d"
    using q by (simp add: d_def flip: power_add)
  have s: "x * 2 ^ double_grid = of_int (m * 2 ^ d)"
    by (simp add: x p)
  have "\<bar>of_int (m * 2 ^ d) :: real\<bar> = of_int (\<bar>m\<bar> * 2 ^ d)"
    by (simp add: abs_mult)
  then have "nat \<lfloor>\<bar>x * 2 ^ double_grid\<bar>\<rfloor> = nat \<bar>m\<bar> * 2 ^ d"
    unfolding s by (simp only: floor_of_int) (simp add: nat_mult_distrib nat_power_eq)
  moreover have "nat \<bar>m\<bar> * 2 ^ d < 2 ^ (53 + d)"
    using m by (simp add: power_add nat_less_iff)
  ultimately have "floorlog 2 (nat \<lfloor>\<bar>x * 2 ^ double_grid\<bar>\<rfloor>) \<le> 53 + d"
    by (simp add: floorlog_leI)
  then have jd: "j \<le> d"
    by (simp add: j_def)
  then have e: "(2::int) ^ d = 2 ^ (d - j) * 2 ^ j" and e': "(2::real) ^ d = 2 ^ (d - j) * 2 ^ j"
    by (simp_all flip: power_add)
  have "x * 2 ^ double_grid / 2 ^ j = of_int (m * 2 ^ (d - j))"
    unfolding s by (simp add: e)
  then have "round_half_even (x * 2 ^ double_grid / 2 ^ j) = m * 2 ^ (d - j)"
    by (simp only: round_half_even_of_int)
  then have "double x = of_int (m * 2 ^ (d - j)) * 2 ^ j / 2 ^ double_grid"
    by (simp only: double_def Let_def j_def [symmetric])
  also have "\<dots> = x"
    by (simp add: x p e')
  finally show ?thesis .
qed

text \<open>
  A number between \<open>2 ^ 52 / 2 ^ q\<close> and \<open>2 ^ 53 / 2 ^ q\<close> is rounded to a multiple of
  \<open>1 / 2 ^ q\<close>: the nearest one, and the even one of the two when it lies half way.
\<close>

lemma double_roundI:
  assumes lo: "2 ^ 52 \<le> \<bar>x\<bar> * 2 ^ q" and hi: "\<bar>x\<bar> * 2 ^ q < 2 ^ 53" and q: "q \<le> double_grid"
  shows "double x = of_int (round_half_even (x * 2 ^ q)) / 2 ^ q"
proof -
  define d where "d = double_grid - q"
  have p: "(2::real) ^ double_grid = 2 ^ q * 2 ^ d"
    using q by (simp add: d_def flip: power_add)
  have a: "\<bar>x * 2 ^ double_grid\<bar> = \<bar>x\<bar> * 2 ^ q * 2 ^ d"
    by (simp add: p abs_mult)
  have "2 ^ (52 + d) \<le> \<bar>x * 2 ^ double_grid\<bar>"
    unfolding a using lo by (simp add: power_add)
  then have "(2::int) ^ (52 + d) \<le> \<lfloor>\<bar>x * 2 ^ double_grid\<bar>\<rfloor>"
    by (simp add: le_floor_iff)
  then have l: "(2::nat) ^ (52 + d) \<le> nat \<lfloor>\<bar>x * 2 ^ double_grid\<bar>\<rfloor>"
    by (simp add: le_nat_iff)
  have "\<bar>x * 2 ^ double_grid\<bar> < 2 ^ (53 + d)"
    unfolding a using hi by (simp add: power_add)
  then have "\<lfloor>\<bar>x * 2 ^ double_grid\<bar>\<rfloor> < (2::int) ^ (53 + d)"
    by (simp add: floor_less_iff)
  then have h: "nat \<lfloor>\<bar>x * 2 ^ double_grid\<bar>\<rfloor> < (2::nat) ^ (53 + d)"
    by (simp add: nat_less_iff)
  have "floorlog 2 (nat \<lfloor>\<bar>x * 2 ^ double_grid\<bar>\<rfloor>) = 53 + d"
  proof (rule antisym)
    show "floorlog 2 (nat \<lfloor>\<bar>x * 2 ^ double_grid\<bar>\<rfloor>) \<le> 53 + d"
      using h by (simp add: floorlog_leI)
    show "53 + d \<le> floorlog 2 (nat \<lfloor>\<bar>x * 2 ^ double_grid\<bar>\<rfloor>)"
      using l by (intro floorlog_geI) simp_all
  qed
  moreover have "x * 2 ^ double_grid / 2 ^ d = x * 2 ^ q"
    by (simp add: p)
  ultimately have "double x = of_int (round_half_even (x * 2 ^ q)) * 2 ^ d / 2 ^ double_grid"
    by (simp add: double_def Let_def)
  also have "\<dots> = of_int (round_half_even (x * 2 ^ q)) / 2 ^ q"
    by (simp add: p)
  finally show ?thesis .
qed

lemma double_nearI:
  assumes "2 ^ 52 \<le> \<bar>x\<bar> * 2 ^ q" and "\<bar>x\<bar> * 2 ^ q < 2 ^ 53"
    and "\<bar>x * 2 ^ q - of_int m\<bar> < 1 / 2" and "q \<le> double_grid"
  shows "double x = of_int m / 2 ^ q"
  using double_roundI [OF assms(1,2,4)] round_half_even_near [OF assms(3)] by simp

lemma double_tieI:
  assumes "2 ^ 52 \<le> \<bar>x\<bar> * 2 ^ q" and "\<bar>x\<bar> * 2 ^ q < 2 ^ 53"
    and "x * 2 ^ q = of_int f + 1 / 2" and "q \<le> double_grid"
  shows "double x = of_int (if even f then f else f + 1) / 2 ^ q"
  using double_roundI [OF assms(1,2,4)] round_half_even_tie [OF assms(3)] by simp



lemma double_zero [simp]: "double 0 = 0"
  using double_exactI [where x = 0 and m = 0 and q = 0] by simp

text \<open>The tick size is the double \<open>0.016666666666666666\<close>, a little below one sixtieth.\<close>

lemma tick_size: "update_rate_seconds = 4803839602528529 / 2 ^ 58"
  using double_nearI [where q = 58 and x = "1 / 60" and m = 4803839602528529]
  by (simp add: update_rate_seconds_def update_rate_fps_def double_grid_def)

lemma tick_positive: "0 < update_rate_seconds"
  by (simp add: tick_size)

subsection \<open>Bodies in the session that \<^verbatim>\<open>start()\<close> opens\<close>

lemma start_player_object:
  "objects (start initial_world) 0 = Some Player_fields"
  by (simp add: start_def initial_world_def new_Player_def new_Body_def Let_def)

lemma start_initial_world:
  "start initial_world =
     \<lparr>objects = (\<lambda>i. None)(0 \<mapsto> Player_fields), entities = [0],
      queued_entities_for_removal = [], running_id = 1, player = 0,
      enemy_spawner = Some (new_Enemy_Spawner 1 (double (55 / 100))), collision_handler = True,
      last_time = None, loop_count = 0, enemiesKilled = 0, bossesKilled = 0,
      enemiesSpawned = 0, bossesSpawned = 0, timeAlive = 0, score = 0, HighScore = 0,
      firstGame = True, random_values = (\<lambda>n. 1 / 2), random_calls = 0\<rparr>"
  by (simp add: start_def initial_world_def new_Player_def new_Body_def Let_def array_put_def)

lemma start_running_id: "running_id (start initial_world) = 1"
  by (simp add: start_def initial_world_def new_Player_def new_Body_def Let_def)

subsection \<open>Removal protocol\<close>

lemma fold_array_delete:
  "fold array_delete q ks = filter (\<lambda>k. k \<notin> set q) ks"
  by (induction q arbitrary: ks)
     (auto simp: array_delete_def removeAll_filter_not_eq intro: filter_cong)

text \<open>
  Claim C8. \<^verbatim>\<open>remove()\<close> only appends the id to the pending-removal list: the registry
  and the objects are untouched. The flush at the end of the tick takes every queued id
  out of the registry and leaves the queue empty. Removing the same id twice is the same
  as removing it once: the flush deletes the id once and the second \<^verbatim>\<open>delete\<close> changes
  nothing; the id is gone afterwards. All the functions are total, so nothing can fail.
\<close>

theorem removal_two_phase_idempotent:
  "entities (remove i w) = entities w \<and>
   objects (remove i w) = objects w \<and>
   queued_entities_for_removal (remove i w) = queued_entities_for_removal w @ [i] \<and>
   entities (flush_removals w) =
     filter (\<lambda>k. k \<notin> set (queued_entities_for_removal w)) (entities w) \<and>
   queued_entities_for_removal (flush_removals w) = [] \<and>
   flush_removals (remove i (remove i w)) = flush_removals (remove i w) \<and>
   i \<notin> set (entities (flush_removals (remove i (remove i w)))) \<and>
   array_delete i (array_delete i ks) = array_delete i ks"
  by (simp add: remove_def flush_removals_def fold_array_delete array_delete_def)

subsection \<open>Clamping\<close>

lemma clip_bounds:
  "0 \<le> position_x (clip b) \<and> position_x (clip b) \<le> canvas_size_width \<and>
   0 \<le> position_y (clip b) \<and> position_y (clip b) \<le> canvas_size_height"
  by (simp add: clip_def canvas_size_width_def canvas_size_height_def)

text \<open>
  Claim C4. Whatever the variant of a body and whatever \<open>dt\<close>, after its \<^verbatim>\<open>update(dt)\<close>
  the position of the body lies in \<open>[0, width] \<times> [0, height]\<close>.
\<close>

theorem update_position_within_bounds:
  assumes "objects w i = Some b"
  shows "\<exists>b'. objects (entity_update dt i w) i = Some b' \<and>
           0 \<le> position_x b' \<and> position_x b' \<le> canvas_size_width \<and>
           0 \<le> position_y b' \<and> position_y b' \<le> canvas_size_height"
proof (cases "variant b")
  case Projectile
  with assms show ?thesis
    using clip_bounds
    by (simp add: entity_update_def variant_of_def Projectile_update_def Let_def remove_def)
next
  case Player
  with assms show ?thesis
    using clip_bounds
    by (simp add: entity_update_def variant_of_def Player_update_def Let_def)
next
  case Enemy
  with assms show ?thesis
    using clip_bounds
    by (simp add: entity_update_def variant_of_def Enemy_update_def Let_def remove_def)
next
  case BossEnemy
  with assms show ?thesis
    using clip_bounds
    by (simp add: entity_update_def variant_of_def BossEnemy_update_def Let_def remove_def)
qed

theorem update_position_within_bounds_witness:
  "(\<exists>b. objects (start initial_world) 0 = Some b) \<and>
   (\<exists>b'. objects (entity_update (1 / 60) 0 (start initial_world)) 0 = Some b' \<and>
           0 \<le> position_x b' \<and> position_x b' \<le> canvas_size_width \<and>
           0 \<le> position_y b' \<and> position_y b' \<le> canvas_size_height)"
  using update_position_within_bounds [OF start_player_object, of "1 / 60"]
  by (simp add: start_player_object)

subsection \<open>Vertical motion of Projectile, Enemy and BossEnemy\<close>

lemma fired_projectile_object:
  "objects (new_Projectile 150 400 (start initial_world)) 1 =
     Some (Projectile_fields 150 400)"
  by (simp add: new_Projectile_def new_Body_def start_running_id)

text \<open>
  Claim C10. For a Projectile, an Enemy or a BossEnemy whose velocity is zero, one
  \<^verbatim>\<open>update(dt)\<close> moves \<open>position.y\<close> by the speed of the body (minus the speed for a
  Projectile, plus the speed for the two others) and then clamps it; the whole effect of
  the call is the same for every \<open>dt\<close>.
\<close>

theorem vertical_step_independent_of_dt:
  assumes "objects w i = Some b" and "velocity_x b = 0" and "velocity_y b = 0"
    and "variant b \<noteq> Player"
  shows "entity_update dt i w = entity_update dt' i w \<and>
         (\<exists>b'. objects (entity_update dt i w) i = Some b' \<and>
            position_y b' =
              min (max 0 (position_y b + (if variant b = Projectile then - speed b else speed b)))
                canvas_size_height)"
proof (cases "variant b")
  case Projectile
  with assms show ?thesis
    by (simp add: entity_update_def variant_of_def Projectile_update_def Let_def Body_update_def clip_def)
next
  case Player
  with assms show ?thesis by simp
next
  case Enemy
  with assms show ?thesis
    by (simp add: entity_update_def variant_of_def Enemy_update_def Let_def Body_update_def clip_def)
next
  case BossEnemy
  with assms show ?thesis
    by (simp add: entity_update_def variant_of_def BossEnemy_update_def Let_def Body_update_def clip_def)
qed

theorem vertical_step_independent_of_dt_witness:
  "entity_update (1 / 60) 1 (new_Projectile 150 400 (start initial_world)) =
     entity_update 5 1 (new_Projectile 150 400 (start initial_world)) \<and>
   (\<exists>b'. objects (entity_update (1 / 60) 1 (new_Projectile 150 400 (start initial_world))) 1 = Some b' \<and>
      position_y b' = 390)"
proof -
  have m: "min (max 0 (400 + - 10)) canvas_size_height = 390"
    by (simp add: canvas_size_height_def)
  have "entity_update (1 / 60) 1 (new_Projectile 150 400 (start initial_world)) =
          entity_update 5 1 (new_Projectile 150 400 (start initial_world)) \<and>
        (\<exists>b'. objects (entity_update (1 / 60) 1 (new_Projectile 150 400 (start initial_world))) 1 = Some b' \<and>
           position_y b' = min (max 0 (400 + - 10)) canvas_size_height)"
    using vertical_step_independent_of_dt [OF fired_projectile_object, of "1 / 60" 5]
    by (simp (no_asm_use) add: Body_defaults_def Projectile_fields_def)
  then show ?thesis
    unfolding m .
qed

subsection \<open>Player: movement and fire control\<close>

text \<open>
  Claim C7. \<^verbatim>\<open>Player.update\<close> advances each axis of the position by the axis value
  times \<open>diag_speed\<close> when both axes are non-zero, and by the axis value times \<open>speed\<close>
  otherwise (then the base motion \<open>dt * velocity\<close> and the clamp apply); a new Player
  has \<open>diag_speed = speed * cos (pi / 4)\<close>.
\<close>

theorem player_movement_two_branch:
  assumes "objects w i = Some b"
  shows "(\<exists>b'. objects (Player_update dt i w) i = Some b' \<and>
           position_x b' =
             min (max 0 (position_x b
                    + move_x b * (if move_x b \<noteq> 0 \<and> move_y b \<noteq> 0 then diag_speed b else speed b)
                    + dt * velocity_x b)) canvas_size_width \<and>
           position_y b' =
             min (max 0 (position_y b
                    + move_y b * (if move_x b \<noteq> 0 \<and> move_y b \<noteq> 0 then diag_speed b else speed b)
                    + dt * velocity_y b)) canvas_size_height) \<and>
         (\<exists>p. objects (new_Player w) (player (new_Player w)) = Some p \<and>
            speed p = 5 \<and> diag_speed p = speed p * cos (pi / 4))"
  using assms
  by (simp add: Player_update_def Let_def Body_update_def clip_def new_Player_def new_Body_def Player_movement_def Player_fields_def Body_defaults_def)


lemma Player_movement_fields:
  "health (Player_movement b) = health b"
  "action_1 (Player_movement b) = action_1 b"
  "time_since_fired (Player_movement b) = time_since_fired b"
  "velocity_x (Player_movement b) = velocity_x b"
  "velocity_y (Player_movement b) = velocity_y b"
  "variant (Player_movement b) = variant b"
  by (simp_all add: Player_movement_def)


lemma new_Body_proj:
  "running_id (new_Body b w) = Suc (running_id w)"
  "objects (new_Body b w) = (objects w)(running_id w \<mapsto> b)"
  by (simp_all add: new_Body_def)

lemma start_proj:
  "running_id (start w) = Suc (running_id w)"
  "objects (start w) = (objects w)(running_id w \<mapsto> Player_fields)"
  by (simp_all add: start_def new_Player_def new_Body_def Let_def)

lemma Player_death_proj:
  "running_id (Player_death i w) = Suc (running_id w)"
  "objects (Player_death i w) = (objects w)(running_id w \<mapsto> Player_fields)"
  by (simp_all add: Player_death_def Let_def start_proj remove_def)

lemma new_Projectile_proj:
  "running_id (new_Projectile x y w) = Suc (running_id w)"
  "objects (new_Projectile x y w) = (objects w)(running_id w \<mapsto> Projectile_fields x y)"
  by (simp_all add: new_Projectile_def new_Body_def)

lemma Player_update_alive:
  assumes "objects w i = Some b" and "\<not> isDead b"
  shows "running_id (Player_update dt i w) =
           (if action_1 b \<and> time_since_fired b + dt \<ge> 1 / 10 then Suc (running_id w) else running_id w)"
    and "j \<noteq> i \<Longrightarrow> objects (Player_update dt i w) j =
           (if action_1 b \<and> time_since_fired b + dt \<ge> 1 / 10 \<and> j = running_id w
            then Some (Projectile_fields (position_x (Player_movement b)) (position_y (Player_movement b)))
            else objects w j)"
  using assms
  by (simp_all add: Player_update_def Let_def isDead_def Player_movement_fields new_Projectile_proj)

lemma Player_update_dead:
  assumes "objects w i = Some b" and "isDead b"
  shows "running_id (Player_update dt i w) =
           (if action_1 b \<and> time_since_fired b + dt \<ge> 1 / 10
            then Suc (Suc (running_id w)) else Suc (running_id w))"
    and "j \<noteq> i \<Longrightarrow> objects (Player_update dt i w) j =
           (if action_1 b \<and> time_since_fired b + dt \<ge> 1 / 10 \<and> j = Suc (running_id w)
            then Some (Projectile_fields (position_x (Player_movement b)) (position_y (Player_movement b)))
            else if j = running_id w then Some Player_fields
            else objects w j)"
  using assms
  by (simp_all add: Player_update_def Let_def isDead_def Player_movement_fields new_Projectile_proj Player_death_proj)








lemma steering_player_object:
  "objects (set_controller 1 (- 1) True 0 (start initial_world)) 0 =
     Some (Player_fields\<lparr>move_x := 1, move_y := - 1, action_1 := True\<rparr>)"
  by (simp add: set_controller_def start_player_object)


theorem player_movement_two_branch_witness:
  "(\<exists>b'. objects (Player_update (1 / 60) 0 (set_controller 1 (- 1) True 0 (start initial_world))) 0 = Some b' \<and>
      position_x b' = min (max 0 (150 + 5 * cos (pi / 4))) 300 \<and>
      position_y b' = min (max 0 (400 - 5 * cos (pi / 4))) 500)"
  using player_movement_two_branch [OF steering_player_object, of "1 / 60"]
  by (simp add: Player_fields_def Body_defaults_def canvas_size_width_def canvas_size_height_def)



subsection \<open>Collision rules\<close>

lemma collide_pair_same [simp]: "collide_pair i i w = w"
  by (simp add: collide_pair_def split: option.splits)

lemma collide_pair_apart:
  "objects w i = Some e1 \<Longrightarrow> objects w j = Some e2 \<Longrightarrow> \<not> overlap e1 e2 \<Longrightarrow> collide_pair i j w = w"
  by (simp add: collide_pair_def)

lemma collide_pair_Projectile:
  "objects w i = Some e1 \<Longrightarrow> variant e1 = Projectile \<Longrightarrow> collide_pair i j w = w"
  by (simp add: collide_pair_def rule_Player_def rule_Enemy_def rule_BossEnemy_7_def
        rule_BossEnemy_100_def variant_of_def split: option.splits)

lemma collide_pair_BossEnemy_Projectile:
  assumes "objects w i = Some e1" and "objects w j = Some e2" and "i \<noteq> j" and "overlap e1 e2"
    and "variant e1 = BossEnemy" and "variant e2 = Projectile" and "health e1 > 107"
  shows "collide_pair i j w =
           w\<lparr>objects := (objects w)(i \<mapsto> e1\<lparr>health := health e1 - 107\<rparr>),
             queued_entities_for_removal := queued_entities_for_removal w @ [j]\<rparr>"
  using assms
  by (simp add: collide_pair_def rule_Player_def rule_Enemy_def rule_BossEnemy_7_def
        rule_BossEnemy_100_def variant_of_def health_of_def damage_def remove_def Let_def)

lemma boss_hit_scene_proj:
  "objects boss_hit_scene 0 = Some Player_fields"
  "objects boss_hit_scene 1 = Some ((BossEnemy_fields 1 (1 / 2))\<lparr>position_y := 100\<rparr>)"
  "objects boss_hit_scene 2 = Some (Projectile_fields 150 100)"
  "entities boss_hit_scene = [0, 1, 2]"
  "queued_entities_for_removal boss_hit_scene = []"
  by (simp_all add: boss_hit_scene_def start_initial_world)

lemma scene_overlap:
  "\<not> overlap Player_fields ((BossEnemy_fields 1 (1 / 2))\<lparr>position_y := 100\<rparr>)"
  "\<not> overlap Player_fields (Projectile_fields 150 100)"
  "\<not> overlap ((BossEnemy_fields 1 (1 / 2))\<lparr>position_y := 100\<rparr>) Player_fields"
  "overlap ((BossEnemy_fields 1 (1 / 2))\<lparr>position_y := 100\<rparr>) (Projectile_fields 150 100)"
  by (simp_all add: overlap_def half_size_width_def half_size_height_def Player_fields_def
        BossEnemy_fields_def Projectile_fields_def Body_defaults_def canvas_size_width_def
        canvas_size_height_def)

text \<open>
  Claim C1. In the scene, a BossEnemy with health 1000 overlaps exactly one Projectile
  (the Player is far from both). One collision pass runs both BossEnemy blocks of the
  callback on the pair, the one that subtracts 7 and the one that subtracts 100: the
  BossEnemy ends at 893, not at 993. It is not enqueued for removal and the Projectile
  is, as the claim says.
\<close>

theorem boss_hit_loses_107:
  "health_of 1 boss_hit_scene = 1000 \<and>
   health_of 1 (Collision_Handler_update boss_hit_scene) = 893 \<and>
   queued_entities_for_removal (Collision_Handler_update boss_hit_scene) = [2]"
proof -
  let ?hit = "boss_hit_scene\<lparr>objects := (objects boss_hit_scene)
                   (1 \<mapsto> (BossEnemy_fields 1 (1 / 2))\<lparr>position_y := 100, health := 893\<rparr>),
                 queued_entities_for_removal := [2]\<rparr>"
  have r01: "collide_pair 0 1 boss_hit_scene = boss_hit_scene"
    by (rule collide_pair_apart [OF boss_hit_scene_proj(1) boss_hit_scene_proj(2) scene_overlap(1)])
  have r02: "collide_pair 0 2 boss_hit_scene = boss_hit_scene"
    by (rule collide_pair_apart [OF boss_hit_scene_proj(1) boss_hit_scene_proj(3) scene_overlap(2)])
  have r10: "collide_pair 1 0 boss_hit_scene = boss_hit_scene"
    by (rule collide_pair_apart [OF boss_hit_scene_proj(2) boss_hit_scene_proj(1) scene_overlap(3)])
  have r12: "collide_pair 1 2 boss_hit_scene = ?hit"
    using collide_pair_BossEnemy_Projectile [OF boss_hit_scene_proj(2) boss_hit_scene_proj(3) _ scene_overlap(4)]
    by (simp add: BossEnemy_fields_def Projectile_fields_def Body_defaults_def boss_hit_scene_proj)
  have "objects ?hit 2 = Some (Projectile_fields 150 100)"
    by (simp add: boss_hit_scene_proj)
  then have r2: "collide_pair 2 j ?hit = ?hit" for j
    by (rule collide_pair_Projectile) (simp add: Projectile_fields_def Body_defaults_def)
  have "Collision_Handler_update boss_hit_scene = ?hit"
    unfolding Collision_Handler_update_def boss_hit_scene_proj(4)
    by (simp only: fold_simps comp_apply id_apply collide_pair_same r01 r02 r10 r12 r2)
  moreover have "health_of 1 boss_hit_scene = 1000"
    by (simp add: health_of_def boss_hit_scene_def BossEnemy_fields_def Body_defaults_def)
  moreover have "health_of 1 ?hit = 893" "queued_entities_for_removal ?hit = [2]"
    by (simp_all add: health_of_def)
  ultimately show ?thesis
    by (simp only:)
qed

subsection \<open>Health never increases\<close>

lemma hni_refl: "health_not_increased w w"
  by (simp add: health_not_increased_def)

lemma hni_trans:
  "health_not_increased w w' \<Longrightarrow> health_not_increased w' w'' \<Longrightarrow> health_not_increased w w''"
  unfolding health_not_increased_def
  by (meson le_trans less_le_trans order_trans)

lemma hni_fold:
  assumes "\<And>x w. health_not_increased w (f x w)"
  shows "health_not_increased w (fold f xs w)"
proof (induction xs arbitrary: w)
  case Nil
  show ?case by (simp add: hni_refl)
next
  case (Cons x xs)
  show ?case
    using hni_trans [OF assms [of w x] Cons.IH [of "f x w"]] by simp
qed

lemma hni_same_objects:
  "objects w' = objects w \<Longrightarrow> running_id w' = running_id w \<Longrightarrow> health_not_increased w w'"
  by (simp add: health_not_increased_def)

lemma hni_damage: "0 \<le> d \<Longrightarrow> health_not_increased w (damage i d w)"
  by (auto simp: health_not_increased_def damage_def split: option.splits)

lemma hni_remove: "health_not_increased w (remove i w)"
  by (simp add: hni_same_objects remove_def)

lemma hni_new_Body: "health_not_increased w (new_Body b w)"
  by (simp add: health_not_increased_def new_Body_def)

lemma hni_rule_Player: "health_not_increased w (rule_Player i j w)"
proof -
  have a: "health_not_increased w (damage i 25 w)"
    and b: "health_not_increased w (damage i 100 w)"
    and c: "health_not_increased w (damage i 100 (damage i 25 w))"
    by (simp_all add: hni_damage hni_trans [OF hni_damage hni_damage])
  show ?thesis
    unfolding rule_Player_def Let_def using a b c by (simp add: hni_refl)
qed

lemma hni_rule_Enemy: "health_not_increased w (rule_Enemy i j w)"
proof -
  have a: "health_not_increased w (damage i 100 w)"
    by (simp add: hni_damage)
  have "health_not_increased (damage i 100 w)
          ((remove i (damage i 100 w))\<lparr>enemiesKilled := enemiesKilled (damage i 100 w) + 1\<rparr>)"
    by (rule hni_same_objects) (simp_all add: remove_def)
  note b = hni_trans [OF a this]
  show ?thesis
    unfolding rule_Enemy_def Let_def using a b by (simp add: hni_refl)
qed

lemma hni_rule_BossEnemy_7: "health_not_increased w (rule_BossEnemy_7 i j w)"
proof -
  have a: "health_not_increased w (damage i 7 w)"
    by (simp add: hni_damage)
  have "health_not_increased (damage i 7 w)
          ((remove i (damage i 7 w))\<lparr>enemiesKilled := enemiesKilled (damage i 7 w) + 1,
              bossesKilled := bossesKilled (damage i 7 w) + 1\<rparr>)"
    by (rule hni_same_objects) (simp_all add: remove_def)
  note b = hni_trans [OF a this]
  note c = hni_trans [OF a hni_remove [of "damage i 7 w" j]]
  show ?thesis
    unfolding rule_BossEnemy_7_def Let_def using a b c by (simp add: hni_refl)
qed

lemma hni_rule_BossEnemy_100: "health_not_increased w (rule_BossEnemy_100 i j w)"
proof -
  have a: "health_not_increased w (damage i 100 w)"
    by (simp add: hni_damage)
  have "health_not_increased (damage i 100 w)
          ((remove i (damage i 100 w))\<lparr>enemiesKilled := enemiesKilled (damage i 100 w) + 1,
              bossesKilled := bossesKilled (damage i 100 w) + 1\<rparr>)"
    by (rule hni_same_objects) (simp_all add: remove_def)
  note b = hni_trans [OF a this]
  show ?thesis
    unfolding rule_BossEnemy_100_def Let_def using a b by (simp add: hni_refl)
qed

lemma hni_collide_pair: "health_not_increased w (collide_pair i j w)"
proof -
  have "health_not_increased w
          (rule_BossEnemy_100 i j (rule_BossEnemy_7 i j (rule_Enemy i j (rule_Player i j w))))"
    by (rule hni_trans [OF hni_trans [OF hni_trans [OF hni_rule_Player hni_rule_Enemy]
          hni_rule_BossEnemy_7] hni_rule_BossEnemy_100])
  then show ?thesis
    by (simp add: collide_pair_def hni_refl split: option.splits)
qed

lemma hni_Collision_Handler_update: "health_not_increased w (Collision_Handler_update w)"
  unfolding Collision_Handler_update_def
  by (intro hni_fold hni_collide_pair)


lemma hni_Projectile_update: "health_not_increased w (Projectile_update dt i w)"
  by (auto simp: health_not_increased_def Projectile_update_def Let_def remove_def
        Body_update_def clip_def split: option.splits)

lemma hni_Enemy_update: "health_not_increased w (Enemy_update dt i w)"
  by (auto simp: health_not_increased_def Enemy_update_def Let_def remove_def
        Body_update_def clip_def split: option.splits)

lemma hni_BossEnemy_update: "health_not_increased w (BossEnemy_update dt i w)"
  by (auto simp: health_not_increased_def BossEnemy_update_def Let_def remove_def
        Body_update_def clip_def split: option.splits)

lemma Player_update_self_health:
  assumes "objects w i = Some b"
  shows "\<exists>b'. objects (Player_update dt i w) i = Some b' \<and> health b' = health b"
  using assms
  by (simp add: Player_update_def Let_def Player_movement_fields Body_update_def clip_def)

lemma hni_Player_update: "health_not_increased w (Player_update dt i w)"
proof (cases "objects w i")
  case None
  then show ?thesis
    by (simp add: Player_update_def hni_refl)
next
  case (Some b)
  have rid: "running_id w \<le> running_id (Player_update dt i w)"
    using Player_update_dead(1) [OF Some, of dt] Player_update_alive(1) [OF Some, of dt]
    by (cases "isDead b") simp_all
  have old: "objects (Player_update dt i w) k = objects w k" if "k < running_id w" "k \<noteq> i" for k
    using that Player_update_dead(2) [OF Some _ that(2), of dt]
      Player_update_alive(2) [OF Some _ that(2), of dt]
    by (cases "isDead b") simp_all
  show ?thesis
    unfolding health_not_increased_def
  proof (intro conjI allI impI)
    show "running_id w \<le> running_id (Player_update dt i w)"
      by (rule rid)
  next
    fix k c
    assume k: "k < running_id w" and c: "objects w k = Some c"
    show "\<exists>b'. objects (Player_update dt i w) k = Some b' \<and> health b' \<le> health c"
    proof (cases "k = i")
      case True
      with Player_update_self_health [OF Some, of dt] Some c show ?thesis
        by auto
    next
      case False
      with old [OF k] c show ?thesis
        by simp
    qed
  qed
qed

lemma hni_entity_update: "health_not_increased w (entity_update dt i w)"
  by (simp add: entity_update_def hni_refl hni_Projectile_update hni_Player_update
        hni_Enemy_update hni_BossEnemy_update split: option.splits variant.splits)

lemma hni_flush_removals: "health_not_increased w (flush_removals w)"
  by (simp add: hni_same_objects flush_removals_def)

lemma hni_new_Enemy: "health_not_increased w (new_Enemy sp w)"
  by (simp add: health_not_increased_def new_Enemy_def Math_random_def new_Body_def)

lemma hni_new_BossEnemy: "health_not_increased w (new_BossEnemy sp w)"
  by (simp add: health_not_increased_def new_BossEnemy_def Math_random_def new_Body_def)

lemma hni_spawn_unit: "health_not_increased (snd sw) (snd (spawn_unit sw))"
proof -
  obtain s w where sw: "sw = (s, w)"
    by (cases sw)
  have a: "health_not_increased w ((new_Enemy 2 w)\<lparr>enemiesSpawned := enemiesSpawned (new_Enemy 2 w) + 1\<rparr>)"
    by (rule hni_trans [OF hni_new_Enemy [of w 2]]) (simp add: hni_same_objects)
  have b: "health_not_increased w
             ((new_BossEnemy 2 (new_BossEnemy 1 w))
                \<lparr>bossesSpawned := bossesSpawned (new_BossEnemy 2 (new_BossEnemy 1 w)) + 1\<rparr>)"
    by (rule hni_trans [OF hni_trans [OF hni_new_BossEnemy [of w 1] hni_new_BossEnemy [of _ 2]]])
       (simp add: hni_same_objects)
  show ?thesis
    using a b by (simp add: sw spawn_unit_def Let_def)
qed

lemma hni_spawn_loop: "health_not_increased (snd sw) (snd (spawn_loop n sw))"
proof (induction n arbitrary: sw)
  case 0
  show ?case by (simp add: hni_refl)
next
  case (Suc n)
  show ?case
    using hni_trans [OF hni_spawn_unit [of sw] Suc.IH [of "spawn_unit sw"]] by simp
qed

lemma hni_Enemy_Spawner_update:
  "health_not_increased w (snd (Enemy_Spawner_update dt (s, w)))"
  using hni_spawn_loop [of "(s\<lparr>time_since_spawn := 0\<rparr>, w)" "enemies s"]
  by (simp add: Enemy_Spawner_update_def Let_def hni_refl)

lemma hni_run_spawner: "health_not_increased w (run_spawner dt w)"
proof (cases "enemy_spawner w")
  case None
  then show ?thesis
    by (simp add: run_spawner_def hni_refl)
next
  case (Some s)
  have "health_not_increased (snd (Enemy_Spawner_update dt (s, w)))
          ((snd (Enemy_Spawner_update dt (s, w)))
             \<lparr>enemy_spawner := Some (fst (Enemy_Spawner_update dt (s, w)))\<rparr>)"
    by (simp add: hni_same_objects)
  from hni_trans [OF hni_Enemy_Spawner_update this] show ?thesis
    by (simp add: run_spawner_def Some split_def Let_def)
qed

lemma hni_update: "health_not_increased w (update dt w)"
proof -
  let ?w1 = "fold (entity_update dt) (entities w) w"
  let ?w2 = "if collision_handler ?w1 then Collision_Handler_update ?w1 else ?w1"
  have 1: "health_not_increased w ?w1"
    by (intro hni_fold hni_entity_update)
  have 2: "health_not_increased ?w1 ?w2"
    by (simp add: hni_refl hni_Collision_Handler_update)
  have 3: "health_not_increased ?w2 (run_spawner dt (flush_removals ?w2))"
    by (rule hni_trans [OF hni_flush_removals hni_run_spawner])
  show ?thesis
    using hni_trans [OF hni_trans [OF 1 2] 3] by (simp add: update_def Let_def)
qed


text \<open>
  Claim C5. \<^verbatim>\<open>isDead()\<close> is true exactly when \<open>health \<le> 0\<close>; it is a function of the
  body and changes nothing. No operation of a tick (the update of an entity, the
  collision pass, the flush of the removal queue, the spawner, and the tick as a whole)
  increases the health of a body that exists when the operation begins. A restart inside
  the tick leaves the old bodies as they are and builds the new Player under a new id.
\<close>

theorem health_never_increases:
  "isDead b = (health b \<le> 0) \<and>
   health_not_increased w (entity_update dt i w) \<and>
   health_not_increased w (Collision_Handler_update w) \<and>
   health_not_increased w (flush_removals w) \<and>
   health_not_increased w (run_spawner dt w) \<and>
   health_not_increased w (update dt w)"
  by (simp add: isDead_def hni_entity_update hni_Collision_Handler_update hni_flush_removals
        hni_run_spawner hni_update)

theorem health_never_increases_witness:
  "1 < running_id boss_hit_scene \<and>
   (\<exists>b. objects boss_hit_scene 1 = Some b \<and> health b = 1000) \<and>
   (\<exists>b'. objects (update (1 / 60) boss_hit_scene) 1 = Some b' \<and> health b' \<le> 1000)"
proof -
  have r: "1 < running_id boss_hit_scene"
    by (simp add: boss_hit_scene_def)
  have h: "health ((BossEnemy_fields 1 (1 / 2))\<lparr>position_y := 100\<rparr>) = 1000"
    by (simp add: BossEnemy_fields_def Body_defaults_def)
  have "health_not_increased boss_hit_scene (update (1 / 60) boss_hit_scene)"
    using health_never_increases [of _ boss_hit_scene "1 / 60"] by simp
  then have "\<exists>b'. objects (update (1 / 60) boss_hit_scene) 1 = Some b' \<and> health b' \<le> 1000"
    unfolding health_not_increased_def using r boss_hit_scene_proj(2) h by fastforce
  with r boss_hit_scene_proj(2) h show ?thesis
    by blast
qed

subsection \<open>The collision pass depends on the registry only\<close>

lemma agree_damage: "agree_on S w w' \<Longrightarrow> agree_on S (damage i d w) (damage i d w')"
  by (auto simp: agree_on_def damage_def split: option.splits)

lemma agree_remove: "agree_on S w w' \<Longrightarrow> agree_on S (remove i w) (remove i w')"
  by (simp add: agree_on_def remove_def)

lemma agree_kill:
  "agree_on S w w' \<Longrightarrow>
   agree_on S (w\<lparr>enemiesKilled := enemiesKilled w + 1\<rparr>) (w'\<lparr>enemiesKilled := enemiesKilled w' + 1\<rparr>)"
  by (simp add: agree_on_def)

lemma agree_boss_kill:
  "agree_on S w w' \<Longrightarrow>
   agree_on S (w\<lparr>enemiesKilled := enemiesKilled w + 1, bossesKilled := bossesKilled w + 1\<rparr>)
     (w'\<lparr>enemiesKilled := enemiesKilled w' + 1, bossesKilled := bossesKilled w' + 1\<rparr>)"
  by (simp add: agree_on_def)

lemma agree_variant_of: "agree_on S w w' \<Longrightarrow> i \<in> S \<Longrightarrow> variant_of i w = variant_of i w'"
  by (simp add: agree_on_def variant_of_def)

lemma agree_health_of: "agree_on S w w' \<Longrightarrow> i \<in> S \<Longrightarrow> health_of i w = health_of i w'"
  by (simp add: agree_on_def health_of_def)

lemma agree_rule_Player:
  assumes "agree_on S w w'" and "i \<in> S" and "j \<in> S"
  shows "agree_on S (rule_Player i j w) (rule_Player i j w')"
proof -
  define a where "a = (if variant_of j w = Some Enemy then damage i 25 w else w)"
  define a' where "a' = (if variant_of j w' = Some Enemy then damage i 25 w' else w')"
  have v: "variant_of i w' = variant_of i w" "variant_of j w' = variant_of j w"
    using assms by (simp_all add: agree_variant_of)
  have a: "agree_on S a a'"
    unfolding a_def a'_def v using assms(1) by (simp add: agree_damage)
  have va: "variant_of j a' = variant_of j a"
    using agree_variant_of [OF a assms(3)] by simp
  have b: "agree_on S (if variant_of j a = Some BossEnemy then damage i 100 a else a)
          (if variant_of j a' = Some BossEnemy then damage i 100 a' else a')"
    unfolding va using a by (simp add: agree_damage)
  have e: "rule_Player i j w =
             (if variant_of i w = Some Player
              then (if variant_of j a = Some BossEnemy then damage i 100 a else a) else w)"
    by (simp add: rule_Player_def Let_def a_def)
  have e': "rule_Player i j w' =
             (if variant_of i w' = Some Player
              then (if variant_of j a' = Some BossEnemy then damage i 100 a' else a') else w')"
    by (simp add: rule_Player_def Let_def a'_def)
  show ?thesis
    unfolding e e' v(1) using assms(1) b by simp
qed

lemma agree_rule_Enemy:
  assumes "agree_on S w w'" and "i \<in> S" and "j \<in> S"
  shows "agree_on S (rule_Enemy i j w) (rule_Enemy i j w')"
proof -
  define a where "a = damage i 100 w"
  define a' where "a' = damage i 100 w'"
  have v: "variant_of i w' = variant_of i w" "variant_of j w' = variant_of j w"
    using assms by (simp_all add: agree_variant_of)
  have a: "agree_on S a a'"
    unfolding a_def a'_def using assms(1) by (rule agree_damage)
  have h: "health_of i a' = health_of i a"
    using agree_health_of [OF a assms(2)] by simp
  have "agree_on S
          (if health_of i a \<le> 0 then (remove i a)\<lparr>enemiesKilled := enemiesKilled a + 1\<rparr> else a)
          (if health_of i a' \<le> 0 then (remove i a')\<lparr>enemiesKilled := enemiesKilled a' + 1\<rparr> else a')"
    unfolding h using a by (simp add: agree_on_def remove_def)
  then show ?thesis
    unfolding rule_Enemy_def Let_def v a_def [symmetric] a'_def [symmetric]
    using assms(1) by simp
qed

lemma agree_rule_BossEnemy_7:
  assumes "agree_on S w w'" and "i \<in> S" and "j \<in> S"
  shows "agree_on S (rule_BossEnemy_7 i j w) (rule_BossEnemy_7 i j w')"
proof -
  define a where "a = damage i 7 w"
  define a' where "a' = damage i 7 w'"
  have v: "variant_of i w' = variant_of i w" "variant_of j w' = variant_of j w"
    using assms by (simp_all add: agree_variant_of)
  have a: "agree_on S a a'"
    unfolding a_def a'_def using assms(1) by (rule agree_damage)
  have h: "health_of i a' = health_of i a"
    using agree_health_of [OF a assms(2)] by simp
  have "agree_on S
          (if health_of i a \<le> 0
           then (remove i a)\<lparr>enemiesKilled := enemiesKilled a + 1, bossesKilled := bossesKilled a + 1\<rparr>
           else remove j a)
          (if health_of i a' \<le> 0
           then (remove i a')\<lparr>enemiesKilled := enemiesKilled a' + 1, bossesKilled := bossesKilled a' + 1\<rparr>
           else remove j a')"
    unfolding h using a by (simp add: agree_on_def remove_def)
  then show ?thesis
    unfolding rule_BossEnemy_7_def Let_def v a_def [symmetric] a'_def [symmetric]
    using assms(1) by simp
qed

lemma agree_rule_BossEnemy_100:
  assumes "agree_on S w w'" and "i \<in> S" and "j \<in> S"
  shows "agree_on S (rule_BossEnemy_100 i j w) (rule_BossEnemy_100 i j w')"
proof -
  define a where "a = damage i 100 w"
  define a' where "a' = damage i 100 w'"
  have v: "variant_of i w' = variant_of i w" "variant_of j w' = variant_of j w"
    using assms by (simp_all add: agree_variant_of)
  have a: "agree_on S a a'"
    unfolding a_def a'_def using assms(1) by (rule agree_damage)
  have h: "health_of i a' = health_of i a"
    using agree_health_of [OF a assms(2)] by simp
  have "agree_on S
          (if health_of i a \<le> 0
           then (remove i a)\<lparr>enemiesKilled := enemiesKilled a + 1, bossesKilled := bossesKilled a + 1\<rparr>
           else a)
          (if health_of i a' \<le> 0
           then (remove i a')\<lparr>enemiesKilled := enemiesKilled a' + 1, bossesKilled := bossesKilled a' + 1\<rparr>
           else a')"
    unfolding h using a by (simp add: agree_on_def remove_def)
  then show ?thesis
    unfolding rule_BossEnemy_100_def Let_def v a_def [symmetric] a'_def [symmetric]
    using assms(1) by simp
qed

lemma agree_collide_pair:
  assumes "agree_on S w w'" and "i \<in> S" and "j \<in> S"
  shows "agree_on S (collide_pair i j w) (collide_pair i j w')"
proof -
  have o: "objects w' i = objects w i" "objects w' j = objects w j"
    using assms by (simp_all add: agree_on_def)
  have "agree_on S
          (rule_BossEnemy_100 i j (rule_BossEnemy_7 i j (rule_Enemy i j (rule_Player i j w))))
          (rule_BossEnemy_100 i j (rule_BossEnemy_7 i j (rule_Enemy i j (rule_Player i j w'))))"
    by (intro agree_rule_BossEnemy_100 agree_rule_BossEnemy_7 agree_rule_Enemy agree_rule_Player
          assms)
  then show ?thesis
    unfolding collide_pair_def o using assms(1)
    by (simp split: option.splits)
qed

lemma frame_damage:
  "entities (damage i d w) = entities w" "random_calls (damage i d w) = random_calls w"
  by (simp_all add: damage_def split: option.splits)

lemma frame_remove:
  "entities (remove i w) = entities w" "random_calls (remove i w) = random_calls w"
  by (simp_all add: remove_def)

lemma frame_rules:
  "entities (rule_Player i j w) = entities w"
  "random_calls (rule_Player i j w) = random_calls w"
  "entities (rule_Enemy i j w) = entities w"
  "random_calls (rule_Enemy i j w) = random_calls w"
  "entities (rule_BossEnemy_7 i j w) = entities w"
  "random_calls (rule_BossEnemy_7 i j w) = random_calls w"
  "entities (rule_BossEnemy_100 i j w) = entities w"
  "random_calls (rule_BossEnemy_100 i j w) = random_calls w"
  by (simp_all add: rule_Player_def rule_Enemy_def rule_BossEnemy_7_def rule_BossEnemy_100_def
        Let_def frame_damage frame_remove)

lemma frame_collide_pair:
  "entities (collide_pair i j w) = entities w"
  "random_calls (collide_pair i j w) = random_calls w"
  by (simp_all add: collide_pair_def frame_rules split: option.splits)

lemma agree_fold_pairs:
  assumes step: "\<And>i j w w'. agree_on S w w' \<Longrightarrow> i \<in> S \<Longrightarrow> j \<in> S \<Longrightarrow>
                   agree_on S (f i j w) (f i j w')"
    and "agree_on S w w'" and "set is \<subseteq> S" and "set js \<subseteq> S"
  shows "agree_on S (fold (\<lambda>i. fold (\<lambda>j. f i j) js) is w) (fold (\<lambda>i. fold (\<lambda>j. f i j) js) is w')"
proof -
  have inner: "agree_on S (fold (\<lambda>j. f i j) ks v) (fold (\<lambda>j. f i j) ks v')"
    if "agree_on S v v'" "i \<in> S" "set ks \<subseteq> S" for i ks v v'
    using that by (induction ks arbitrary: v v') (simp_all add: step)
  show ?thesis
    using assms(2,3)
  proof (induction "is" arbitrary: w w')
    case Nil
    then show ?case by simp
  next
    case (Cons i "is")
    then show ?case
      using assms(4) by (simp add: inner)
  qed
qed

lemma frame_fold_pairs:
  assumes "\<And>i j w. entities (f i j w) = entities w \<and> random_calls (f i j w) = random_calls w"
  shows "entities (fold (\<lambda>i. fold (\<lambda>j. f i j) js) is w) = entities w \<and>
         random_calls (fold (\<lambda>i. fold (\<lambda>j. f i j) js) is w) = random_calls w"
proof -
  have inner: "entities (fold (\<lambda>j. f i j) ks v) = entities v \<and>
               random_calls (fold (\<lambda>j. f i j) ks v) = random_calls v" for i ks v
    by (induction ks arbitrary: v) (simp_all add: assms)
  show ?thesis
    by (induction "is" arbitrary: w) (simp_all add: inner)
qed

lemma agree_collide_pair_part_000:
  assumes "agree_on S w w'" and "i \<in> S" and "j \<in> S"
  shows "agree_on S (collide_pair_part_000 i j w) (collide_pair_part_000 i j w')"
proof -
  have o: "objects w' i = objects w i" "objects w' j = objects w j"
    using assms by (simp_all add: agree_on_def)
  have v: "variant_of i w' = variant_of i w" "variant_of j w' = variant_of j w"
    using assms by (simp_all add: agree_variant_of)
  define a where "a = rule_Player_part_000 i j w"
  define a' where "a' = rule_Player_part_000 i j w'"
  have a: "agree_on S a a'"
    unfolding a_def a'_def rule_Player_part_000_def v using assms(1) by (simp add: agree_damage)
  have va: "variant_of i a' = variant_of i a" "variant_of j a' = variant_of j a"
    using agree_variant_of [OF a] assms(2,3) by simp_all
  have vr: "variant_of j (remove i a') = variant_of j a" "variant_of j (remove i a) = variant_of j a"
    by (simp_all add: variant_of_def remove_def va(2) [unfolded variant_of_def])
  have "agree_on S (rule_Enemy_part_000 i j a) (rule_Enemy_part_000 i j a')"
    unfolding rule_Enemy_part_000_def Let_def va vr using a
    by (simp add: agree_on_def remove_def)
  then show ?thesis
    unfolding collide_pair_part_000_def o a_def a'_def using assms(1)
    by (simp split: option.splits)
qed

lemma frame_collide_pair_part_000:
  "entities (collide_pair_part_000 i j w) = entities w \<and>
   random_calls (collide_pair_part_000 i j w) = random_calls w"
  by (simp add: collide_pair_part_000_def rule_Enemy_part_000_def rule_Player_part_000_def
        Let_def frame_damage frame_remove split: option.splits)

text \<open>
  Claim C9. Two runs of the collision handler that start from the same registry (the same
  ids in the same order, holding equal bodies), the same removal queue and the same kill
  counters end with the same bodies in the registry (so the same healths), the same
  removal queue and the same kill counters, whatever else differs between the two
  states, the random sequence included; and the pass draws no random number. This holds
  for the handler of either source file.
\<close>

theorem collision_resolution_deterministic:
  assumes "same_collision_input w w'"
  shows "same_collision_input (Collision_Handler_update w) (Collision_Handler_update w') \<and>
         random_calls (Collision_Handler_update w) = random_calls w \<and>
         same_collision_input (Collision_Handler_update_part_000 w)
           (Collision_Handler_update_part_000 w') \<and>
         random_calls (Collision_Handler_update_part_000 w) = random_calls w"
proof -
  have e: "entities w' = entities w" and a: "agree_on (set (entities w)) w w'"
    using assms by (auto simp: same_collision_input_def)
  have "agree_on (set (entities w)) (Collision_Handler_update w) (Collision_Handler_update w')"
    unfolding Collision_Handler_update_def e
    by (rule agree_fold_pairs [OF agree_collide_pair a]) simp_all
  moreover have "agree_on (set (entities w)) (Collision_Handler_update_part_000 w)
                   (Collision_Handler_update_part_000 w')"
    unfolding Collision_Handler_update_part_000_def e
    by (rule agree_fold_pairs [OF agree_collide_pair_part_000 a]) simp_all
  ultimately show ?thesis
    using frame_fold_pairs [of collide_pair, OF conjI [OF frame_collide_pair]]
      frame_fold_pairs [of collide_pair_part_000, OF frame_collide_pair_part_000]
    by (simp add: same_collision_input_def e Collision_Handler_update_def
          Collision_Handler_update_part_000_def)
qed

theorem collision_resolution_deterministic_witness:
  "same_collision_input boss_hit_scene
     (boss_hit_scene\<lparr>timeAlive := 3, random_values := (\<lambda>n. 0), random_calls := 7\<rparr>) \<and>
   same_collision_input (Collision_Handler_update boss_hit_scene)
     (Collision_Handler_update
        (boss_hit_scene\<lparr>timeAlive := 3, random_values := (\<lambda>n. 0), random_calls := 7\<rparr>)) \<and>
   same_collision_input (Collision_Handler_update_part_000 boss_hit_scene)
     (Collision_Handler_update_part_000
        (boss_hit_scene\<lparr>timeAlive := 3, random_values := (\<lambda>n. 0), random_calls := 7\<rparr>))"
proof -
  have "same_collision_input boss_hit_scene
          (boss_hit_scene\<lparr>timeAlive := 3, random_values := (\<lambda>n. 0), random_calls := 7\<rparr>)"
    by (simp add: same_collision_input_def agree_on_def)
  from this collision_resolution_deterministic [OF this] show ?thesis
    by blast
qed

subsection \<open>Cadence of the enemy spawner\<close>

lemma map_filter_cong_set:
  "(\<And>x. x \<in> set xs \<Longrightarrow> f x = g x) \<Longrightarrow> List.map_filter f xs = List.map_filter g xs"
  by (simp add: List.map_filter_def cong: map_cong filter_cong)

lemma map_filter_append:
  "List.map_filter f (xs @ ys) = List.map_filter f xs @ List.map_filter f ys"
  by (simp add: List.map_filter_def)

lemma created_new_Body:
  assumes "running_id w \<le> running_id w'"
  shows "created w (new_Body b w') = created w w' @ [b]"
proof -
  have "List.map_filter ((objects w')(running_id w' \<mapsto> b)) [running_id w..<running_id w'] =
          List.map_filter (objects w') [running_id w..<running_id w']"
    by (rule map_filter_cong_set) simp
  then show ?thesis
    using assms
    by (simp add: created_def new_Body_proj map_filter_append)
qed

lemma created_frame:
  "objects w'' = objects w' \<Longrightarrow> running_id w'' = running_id w' \<Longrightarrow> created w w'' = created w w'"
  by (simp add: created_def)

lemma created_new_Enemy:
  assumes "running_id w \<le> running_id w'"
  shows "created w (new_Enemy sp w') =
           created w w' @ [Enemy_fields sp (random_values w' (random_calls w'))]"
  using created_new_Body [of w "w'\<lparr>random_calls := random_calls w' + 1\<rparr>"] assms
  by (simp add: new_Enemy_def Math_random_def created_def)

lemma created_new_BossEnemy:
  assumes "running_id w \<le> running_id w'"
  shows "created w (new_BossEnemy sp w') =
           created w w' @ [BossEnemy_fields sp (random_values w' (random_calls w'))]"
  using created_new_Body [of w "w'\<lparr>random_calls := random_calls w' + 1\<rparr>"] assms
  by (simp add: new_BossEnemy_def Math_random_def created_def)

lemma new_Enemy_running_id: "running_id (new_Enemy sp w) = Suc (running_id w)"
  by (simp add: new_Enemy_def Math_random_def new_Body_def)

lemma new_BossEnemy_running_id: "running_id (new_BossEnemy sp w) = Suc (running_id w)"
  by (simp add: new_BossEnemy_def Math_random_def new_Body_def)

text \<open>One emitted unit.\<close>

lemma spawn_unit_boss:
  assumes "bossSpawn s" and "running_id w \<le> running_id w'"
  shows "fst (spawn_unit (s, w')) = s\<lparr>bossSpawn := False\<rparr>"
    and "map variant (created w (snd (spawn_unit (s, w')))) =
           map variant (created w w') @ [BossEnemy, BossEnemy]"
    and "enemiesSpawned (snd (spawn_unit (s, w'))) = enemiesSpawned w'"
    and "bossesSpawned (snd (spawn_unit (s, w'))) = bossesSpawned w' + 1"
    and "running_id w \<le> running_id (snd (spawn_unit (s, w')))"
proof -
  let ?w1 = "new_BossEnemy 1 w'"
  let ?w2 = "new_BossEnemy 2 ?w1"
  have le1: "running_id w \<le> running_id ?w1"
    using assms(2) by (simp add: new_BossEnemy_running_id)
  have c: "map variant (created w ?w2) = map variant (created w w') @ [BossEnemy, BossEnemy]"
    by (simp add: created_new_BossEnemy [OF le1] created_new_BossEnemy [OF assms(2)]
          BossEnemy_fields_def Body_defaults_def)
  have f: "created w (?w2\<lparr>bossesSpawned := bossesSpawned ?w2 + 1\<rparr>) = created w ?w2"
    by (rule created_frame) simp_all
  show "fst (spawn_unit (s, w')) = s\<lparr>bossSpawn := False\<rparr>"
    using assms(1) by (simp add: spawn_unit_def Let_def)
  show "map variant (created w (snd (spawn_unit (s, w')))) =
           map variant (created w w') @ [BossEnemy, BossEnemy]"
    using assms(1) c f by (simp add: spawn_unit_def Let_def)
  show "enemiesSpawned (snd (spawn_unit (s, w'))) = enemiesSpawned w'"
    using assms(1)
    by (simp add: spawn_unit_def Let_def new_BossEnemy_def Math_random_def new_Body_def)
  show "bossesSpawned (snd (spawn_unit (s, w'))) = bossesSpawned w' + 1"
    using assms(1)
    by (simp add: spawn_unit_def Let_def new_BossEnemy_def Math_random_def new_Body_def)
  show "running_id w \<le> running_id (snd (spawn_unit (s, w')))"
    using assms by (simp add: spawn_unit_def Let_def new_BossEnemy_running_id)
qed

lemma spawn_unit_regular:
  assumes "\<not> bossSpawn s" and "running_id w \<le> running_id w'"
  shows "fst (spawn_unit (s, w')) =
           (if bossTimer s + 1 = 10 then s\<lparr>bossTimer := 0, bossSpawn := True\<rparr>
            else s\<lparr>bossTimer := bossTimer s + 1\<rparr>)"
    and "map variant (created w (snd (spawn_unit (s, w')))) = map variant (created w w') @ [Enemy]"
    and "enemiesSpawned (snd (spawn_unit (s, w'))) = enemiesSpawned w' + 1"
    and "bossesSpawned (snd (spawn_unit (s, w'))) = bossesSpawned w'"
    and "running_id w \<le> running_id (snd (spawn_unit (s, w')))"
proof -
  let ?w1 = "new_Enemy 2 w'"
  have c: "map variant (created w ?w1) = map variant (created w w') @ [Enemy]"
    by (simp add: created_new_Enemy [OF assms(2)] Enemy_fields_def Body_defaults_def)
  have f: "created w (?w1\<lparr>enemiesSpawned := enemiesSpawned ?w1 + 1\<rparr>) = created w ?w1"
    by (rule created_frame) simp_all
  show "fst (spawn_unit (s, w')) =
           (if bossTimer s + 1 = 10 then s\<lparr>bossTimer := 0, bossSpawn := True\<rparr>
            else s\<lparr>bossTimer := bossTimer s + 1\<rparr>)"
    using assms(1) by (simp add: spawn_unit_def Let_def)
  show "map variant (created w (snd (spawn_unit (s, w')))) = map variant (created w w') @ [Enemy]"
    using assms(1) c f by (simp add: spawn_unit_def Let_def)
  show "enemiesSpawned (snd (spawn_unit (s, w'))) = enemiesSpawned w' + 1"
    using assms(1)
    by (simp add: spawn_unit_def Let_def new_Enemy_def Math_random_def new_Body_def)
  show "bossesSpawned (snd (spawn_unit (s, w'))) = bossesSpawned w'"
    using assms(1)
    by (simp add: spawn_unit_def Let_def new_Enemy_def Math_random_def new_Body_def)
  show "running_id w \<le> running_id (snd (spawn_unit (s, w')))"
    using assms by (simp add: spawn_unit_def Let_def new_Enemy_running_id)
qed


lemma spawn_loop_snoc: "spawn_loop (Suc n) sw = spawn_unit (spawn_loop n sw)"
  by (induction n arbitrary: sw) simp_all

lemma spawn_loop_add: "spawn_loop (a + b) sw = spawn_loop b (spawn_loop a sw)"
  by (induction a arbitrary: sw) simp_all

lemma spawn_loop_cadence:
  assumes "bossTimer s = 0" and "\<not> bossSpawn s"
  shows "fst (spawn_loop m (s, w)) =
           s\<lparr>bossTimer := (if m mod 11 = 10 then 0 else m mod 11), bossSpawn := (m mod 11 = 10)\<rparr> \<and>
         map variant (created w (snd (spawn_loop m (s, w)))) =
           concat (map unit_variants [1..<Suc m]) \<and>
         enemiesSpawned (snd (spawn_loop m (s, w))) = enemiesSpawned w + (m - m div 11) \<and>
         bossesSpawned (snd (spawn_loop m (s, w))) = bossesSpawned w + m div 11 \<and>
         running_id w \<le> running_id (snd (spawn_loop m (s, w)))"
proof (induction m)
  case 0
  show ?case
    using assms by (simp add: created_def)
next
  case (Suc m)
  define sm where "sm = fst (spawn_loop m (s, w))"
  define wm where "wm = snd (spawn_loop m (s, w))"
  have step: "spawn_loop (Suc m) (s, w) = spawn_unit (sm, wm)"
    by (simp only: spawn_loop_snoc sm_def wm_def prod.collapse)
  from Suc have sm: "sm = s\<lparr>bossTimer := (if m mod 11 = 10 then 0 else m mod 11),
                              bossSpawn := (m mod 11 = 10)\<rparr>"
    and cr: "map variant (created w wm) = concat (map unit_variants [1..<Suc m])"
    and en: "enemiesSpawned wm = enemiesSpawned w + (m - m div 11)"
    and bo: "bossesSpawned wm = bossesSpawned w + m div 11"
    and le: "running_id w \<le> running_id wm"
    by (simp_all add: sm_def wm_def)
  have dm: "m div 11 \<le> m"
    by simp
  have ext: "concat (map unit_variants [1..<Suc (Suc m)]) =
               concat (map unit_variants [1..<Suc m]) @ unit_variants (Suc m)"
    by simp
  show ?case
  proof (cases "m mod 11 = 10")
    case True
    then have b: "bossSpawn sm"
      by (simp add: sm)
    have m0: "Suc m mod 11 = 0" and d: "Suc m div 11 = Suc (m div 11)"
      using True by (simp_all add: mod_Suc div_Suc)
    have uv: "unit_variants (Suc m) = [BossEnemy, BossEnemy]"
      using m0 by (simp add: unit_variants_def)
    note u = spawn_unit_boss [OF b le]
    have "fst (spawn_unit (sm, wm)) =
            s\<lparr>bossTimer := (if Suc m mod 11 = 10 then 0 else Suc m mod 11),
              bossSpawn := (Suc m mod 11 = 10)\<rparr>"
      unfolding u(1) using True m0 assms by (simp add: sm)
    moreover have "map variant (created w (snd (spawn_unit (sm, wm)))) =
                     concat (map unit_variants [1..<Suc (Suc m)])"
      unfolding u(2) ext uv cr ..
    moreover have "enemiesSpawned (snd (spawn_unit (sm, wm))) =
                     enemiesSpawned w + (Suc m - Suc m div 11)"
      unfolding u(3) en d using dm by simp
    moreover have "bossesSpawned (snd (spawn_unit (sm, wm))) = bossesSpawned w + Suc m div 11"
      unfolding u(4) bo d by simp
    ultimately show ?thesis
      unfolding step using u(5) by blast
  next
    case False
    then have b: "\<not> bossSpawn sm"
      by (simp add: sm)
    have lt: "m mod 11 < 10"
      using False mod_less_divisor [of 11 m] by linarith
    have m0: "Suc m mod 11 = Suc (m mod 11)" and d: "Suc m div 11 = m div 11"
      using lt by (simp_all add: mod_Suc div_Suc)
    have uv: "unit_variants (Suc m) = [Enemy]"
      using m0 by (simp add: unit_variants_def)
    have bt: "bossTimer sm = m mod 11"
      using False by (simp add: sm)
    note u = spawn_unit_regular [OF b le]
    have "fst (spawn_unit (sm, wm)) =
            s\<lparr>bossTimer := (if Suc m mod 11 = 10 then 0 else Suc m mod 11),
              bossSpawn := (Suc m mod 11 = 10)\<rparr>"
      unfolding u(1) bt m0 using False by (simp add: sm)
    moreover have "map variant (created w (snd (spawn_unit (sm, wm)))) =
                     concat (map unit_variants [1..<Suc (Suc m)])"
      unfolding u(2) ext uv cr ..
    moreover have "enemiesSpawned (snd (spawn_unit (sm, wm))) =
                     enemiesSpawned w + (Suc m - Suc m div 11)"
      unfolding u(3) en d using dm by simp
    moreover have "bossesSpawned (snd (spawn_unit (sm, wm))) = bossesSpawned w + Suc m div 11"
      unfolding u(4) bo d by simp
    ultimately show ?thesis
      unfolding step using u(5) by blast
  qed
qed


lemma spawn_unit_keeps:
  "enemies (fst (spawn_unit sw)) = enemies (fst sw)"
  "time_between (fst (spawn_unit sw)) = time_between (fst sw)"
  "time_since_spawn (fst (spawn_unit sw)) = time_since_spawn (fst sw)"
  by (simp_all add: spawn_unit_def split_def Let_def)

lemma spawn_loop_keeps:
  "enemies (fst (spawn_loop m sw)) = enemies (fst sw) \<and>
   time_between (fst (spawn_loop m sw)) = time_between (fst sw) \<and>
   time_since_spawn (fst (spawn_loop m sw)) = time_since_spawn (fst sw)"
  by (induction m arbitrary: sw) (simp_all add: spawn_unit_keeps)

lemma Enemy_Spawner_update_cases:
  "Enemy_Spawner_update dt (s, w) =
     (if double (time_since_spawn s + dt) \<ge> time_between s
      then spawn_loop (enemies s) (s\<lparr>time_since_spawn := 0\<rparr>, w)
      else (s\<lparr>time_since_spawn := double (time_since_spawn s + dt)\<rparr>, w))"
  by (simp add: Enemy_Spawner_update_def Let_def)

text \<open>
  The timer after \<open>j\<close> calls without a wave is the rounded sum
  \<open>((\<lambda>t. double (t + dt)) ^^ j) 0\<close>.
\<close>

lemma idle_ticks:
  assumes "time_between s = T" and "time_since_spawn s = 0"
    and "\<forall>i. 1 \<le> i \<and> i < n \<longrightarrow> ((\<lambda>t. double (t + dt)) ^^ i) 0 < T" and "j < n"
  shows "(Enemy_Spawner_update dt ^^ j) (s, w) =
           (s\<lparr>time_since_spawn := ((\<lambda>t. double (t + dt)) ^^ j) 0\<rparr>, w)"
  using assms(4)
proof (induction j)
  case 0
  show ?case
    using assms(2) by simp
next
  case (Suc j)
  then have "(Enemy_Spawner_update dt ^^ j) (s, w) =
               (s\<lparr>time_since_spawn := ((\<lambda>t. double (t + dt)) ^^ j) 0\<rparr>, w)"
    by simp
  moreover have "((\<lambda>t. double (t + dt)) ^^ Suc j) 0 < T"
    using assms(3) Suc.prems by (simp only: le_add2 Suc_eq_plus1 simp_thms)
  ultimately show ?case
    by (simp add: Enemy_Spawner_update_cases assms(1))
qed

lemma one_wave:
  assumes "time_between s = T" and "time_since_spawn s = 0"
    and "\<forall>i. 1 \<le> i \<and> i < n \<longrightarrow> ((\<lambda>t. double (t + dt)) ^^ i) 0 < T"
    and "T \<le> ((\<lambda>t. double (t + dt)) ^^ n) 0" and "1 \<le> n"
  shows "(Enemy_Spawner_update dt ^^ n) (s, w) = spawn_loop (enemies s) (s, w)"
proof -
  obtain j where n: "n = Suc j"
    using assms(5) by (cases n) simp_all
  have "(Enemy_Spawner_update dt ^^ j) (s, w) =
          (s\<lparr>time_since_spawn := ((\<lambda>t. double (t + dt)) ^^ j) 0\<rparr>, w)"
    by (rule idle_ticks [OF assms(1-3)]) (simp add: n)
  moreover have "s\<lparr>time_since_spawn := 0\<rparr> = s"
    using assms(2) by (cases s) simp
  moreover have "T \<le> double (((\<lambda>t. double (t + dt)) ^^ j) 0 + dt)"
    using assms(4) by (simp add: n)
  ultimately show ?thesis
    by (simp add: n Enemy_Spawner_update_cases assms(1))
qed

lemma aligned_waves:
  assumes "time_between s = T" and "time_since_spawn s = 0"
    and "\<forall>i. 1 \<le> i \<and> i < n \<longrightarrow> ((\<lambda>t. double (t + dt)) ^^ i) 0 < T"
    and "T \<le> ((\<lambda>t. double (t + dt)) ^^ n) 0" and "1 \<le> n"
  shows "(Enemy_Spawner_update dt ^^ (k * n)) (s, w) = spawn_loop (k * enemies s) (s, w)"
proof (induction k)
  case 0
  show ?case by simp
next
  case (Suc k)
  define sw where "sw = spawn_loop (k * enemies s) (s, w)"
  have keep: "enemies (fst sw) = enemies s" "time_between (fst sw) = T"
    "time_since_spawn (fst sw) = 0"
    using spawn_loop_keeps [of "k * enemies s" "(s, w)"] assms(1,2) by (simp_all add: sw_def)
  have "(Enemy_Spawner_update dt ^^ (Suc k * n)) (s, w) =
          (Enemy_Spawner_update dt ^^ n) ((Enemy_Spawner_update dt ^^ (k * n)) (s, w))"
    by (simp add: funpow_add)
  also have "\<dots> = (Enemy_Spawner_update dt ^^ n) (fst sw, snd sw)"
    by (simp add: Suc.IH sw_def)
  also have "\<dots> = spawn_loop (enemies (fst sw)) (fst sw, snd sw)"
    by (rule one_wave [OF keep(2) keep(3) assms(3) assms(4) assms(5)])
  also have "\<dots> = spawn_loop (enemies s) sw"
    by (simp add: keep(1))
  also have "\<dots> = spawn_loop (k * enemies s + enemies s) (s, w)"
    unfolding sw_def by (rule spawn_loop_add [symmetric])
  finally show ?case
    by (simp add: add.commute)
qed


lemma aligned_cadence:
  assumes "\<forall>i. 1 \<le> i \<and> i < n \<longrightarrow> ((\<lambda>t. double (t + dt)) ^^ i) 0 < T"
    and "T \<le> ((\<lambda>t. double (t + dt)) ^^ n) 0" and "1 \<le> n"
  shows "map variant (created w (snd ((Enemy_Spawner_update dt ^^ (k * n)) (new_Enemy_Spawner E T, w)))) =
           concat (map unit_variants [1..<Suc (k * E)]) \<and>
         enemiesSpawned (snd ((Enemy_Spawner_update dt ^^ (k * n)) (new_Enemy_Spawner E T, w))) =
           enemiesSpawned w + (k * E - (k * E) div 11) \<and>
         bossesSpawned (snd ((Enemy_Spawner_update dt ^^ (k * n)) (new_Enemy_Spawner E T, w))) =
           bossesSpawned w + (k * E) div 11"
proof -
  have "(Enemy_Spawner_update dt ^^ (k * n)) (new_Enemy_Spawner E T, w) =
          spawn_loop (k * E) (new_Enemy_Spawner E T, w)"
    using aligned_waves [OF _ _ assms, of "new_Enemy_Spawner E T" k w]
    by (simp add: new_Enemy_Spawner_def)
  then show ?thesis
    using spawn_loop_cadence [of "new_Enemy_Spawner E T" "k * E" w]
    by (simp add: new_Enemy_Spawner_def)
qed

text \<open>
  When no sum on the way is rounded, the timer reaches the delay \<open>T = n * dt\<close> in the
  \<open>n\<close>-th call: ticks aligned to the delay.
\<close>

lemma exact_timer:
  assumes "\<forall>j<n. double (real j * dt + dt) = real (Suc j) * dt" and "i \<le> n"
  shows "((\<lambda>t. double (t + dt)) ^^ i) 0 = real i * dt"
  using assms(2)
proof (induction i)
  case 0
  show ?case by simp
next
  case (Suc i)
  then have "((\<lambda>t. double (t + dt)) ^^ i) 0 = real i * dt" and "i < n"
    by simp_all
  then show ?case
    using assms(1) by (simp del: of_nat_Suc)
qed

lemma aligned_ticks:
  assumes "0 < dt" and "T = real n * dt"
    and "\<forall>j<n. double (real j * dt + dt) = real (Suc j) * dt"
  shows "\<forall>i. 1 \<le> i \<and> i < n \<longrightarrow> ((\<lambda>t. double (t + dt)) ^^ i) 0 < T"
    and "T \<le> ((\<lambda>t. double (t + dt)) ^^ n) 0"
proof -
  show "\<forall>i. 1 \<le> i \<and> i < n \<longrightarrow> ((\<lambda>t. double (t + dt)) ^^ i) 0 < T"
  proof (intro allI impI)
    fix i
    assume i: "1 \<le> i \<and> i < n"
    then have "real i * dt < real n * dt"
      using assms(1) by (simp only: mult_less_cancel_right_pos of_nat_less_iff)
    then show "((\<lambda>t. double (t + dt)) ^^ i) 0 < T"
      using exact_timer [OF assms(3), of i] i by (simp add: assms(2))
  qed
  show "T \<le> ((\<lambda>t. double (t + dt)) ^^ n) 0"
    using exact_timer [OF assms(3), of n] by (simp add: assms(2))
qed







text \<open>
  The rounding counts here too. With ticks of \<open>0.1\<close> and the delay \<open>0.8\<close> the timer is
  \<open>0.7999999999999999\<close> after eight calls, below the delay: the first wave is emitted by
  the ninth call.
\<close>

lemma tenth_of_a_second:
  "double (1 / 10) = 3602879701896397 / 2 ^ 55"
  "double (8 / 10) = 3602879701896397 / 2 ^ 52"
  "double (0 + 3602879701896397 / 2 ^ 55) = 3602879701896397 / 2 ^ 55"
  "double (3602879701896397 / 2 ^ 55 + 3602879701896397 / 2 ^ 55) = 3602879701896397 / 2 ^ 54"
  "double (3602879701896397 / 2 ^ 54 + 3602879701896397 / 2 ^ 55) = 1351079888211149 / 2 ^ 52"
  "double (1351079888211149 / 2 ^ 52 + 3602879701896397 / 2 ^ 55) = 3602879701896397 / 2 ^ 53"
  "double (3602879701896397 / 2 ^ 53 + 3602879701896397 / 2 ^ 55) = 1 / 2"
  "double (1 / 2 + 3602879701896397 / 2 ^ 55) = 5404319552844595 / 2 ^ 53"
  "double (5404319552844595 / 2 ^ 53 + 3602879701896397 / 2 ^ 55) = 3152519739159347 / 2 ^ 52"
  "double (3152519739159347 / 2 ^ 52 + 3602879701896397 / 2 ^ 55) = 7205759403792793 / 2 ^ 53"
  "double (7205759403792793 / 2 ^ 53 + 3602879701896397 / 2 ^ 55) = 2026619832316723 / 2 ^ 51"
proof -
  have "double (1 / 10) = 7205759403792794 / 2 ^ 56"
    using double_nearI [where q = 56 and x = "1 / 10" and m = 7205759403792794]
    by (simp add: double_grid_def)
  then show "double (1 / 10) = 3602879701896397 / 2 ^ 55"
    by simp
  have "double (8 / 10) = 7205759403792794 / 2 ^ 53"
    using double_nearI [where q = 53 and x = "8 / 10" and m = 7205759403792794]
    by (simp add: double_grid_def)
  then show "double (8 / 10) = 3602879701896397 / 2 ^ 52"
    by simp
  have "double (3602879701896397 / 2 ^ 55) = 3602879701896397 / 2 ^ 55"
    using double_exactI [where x = "3602879701896397 / 2 ^ 55" and m = 3602879701896397 and q = 55]
    by (simp add: double_grid_def)
  then show "double (0 + 3602879701896397 / 2 ^ 55) = 3602879701896397 / 2 ^ 55"
    by simp
  have "double (3602879701896397 / 2 ^ 54) = 3602879701896397 / 2 ^ 54"
    using double_exactI [where x = "3602879701896397 / 2 ^ 54" and m = 3602879701896397 and q = 54]
    by (simp add: double_grid_def)
  then show "double (3602879701896397 / 2 ^ 55 + 3602879701896397 / 2 ^ 55) = 3602879701896397 / 2 ^ 54"
    by simp
  have "double (10808639105689191 / 2 ^ 55) = 5404319552844596 / 2 ^ 54"
    using double_tieI [where q = 54 and x = "10808639105689191 / 2 ^ 55" and f = 5404319552844595]
    by (simp add: double_grid_def)
  then show "double (3602879701896397 / 2 ^ 54 + 3602879701896397 / 2 ^ 55) = 1351079888211149 / 2 ^ 52"
    by simp
  have "double (14411518807585589 / 2 ^ 55) = 7205759403792794 / 2 ^ 54"
    using double_tieI [where q = 54 and x = "14411518807585589 / 2 ^ 55" and f = 7205759403792794]
    by (simp add: double_grid_def)
  then show "double (1351079888211149 / 2 ^ 52 + 3602879701896397 / 2 ^ 55) = 3602879701896397 / 2 ^ 53"
    by simp
  have "double (18014398509481985 / 2 ^ 55) = 4503599627370496 / 2 ^ 53"
    using double_nearI [where q = 53 and x = "18014398509481985 / 2 ^ 55" and m = 4503599627370496]
    by (simp add: double_grid_def)
  then show "double (3602879701896397 / 2 ^ 53 + 3602879701896397 / 2 ^ 55) = 1 / 2"
    by simp
  have "double (21617278211378381 / 2 ^ 55) = 5404319552844595 / 2 ^ 53"
    using double_nearI [where q = 53 and x = "21617278211378381 / 2 ^ 55" and m = 5404319552844595]
    by (simp add: double_grid_def)
  then show "double (1 / 2 + 3602879701896397 / 2 ^ 55) = 5404319552844595 / 2 ^ 53"
    by simp
  have "double (25220157913274777 / 2 ^ 55) = 6305039478318694 / 2 ^ 53"
    using double_nearI [where q = 53 and x = "25220157913274777 / 2 ^ 55" and m = 6305039478318694]
    by (simp add: double_grid_def)
  then show "double (5404319552844595 / 2 ^ 53 + 3602879701896397 / 2 ^ 55) = 3152519739159347 / 2 ^ 52"
    by simp
  have "double (28823037615171173 / 2 ^ 55) = 7205759403792793 / 2 ^ 53"
    using double_nearI [where q = 53 and x = "28823037615171173 / 2 ^ 55" and m = 7205759403792793]
    by (simp add: double_grid_def)
  then show "double (3152519739159347 / 2 ^ 52 + 3602879701896397 / 2 ^ 55) = 7205759403792793 / 2 ^ 53"
    by simp
  have "double (32425917317067569 / 2 ^ 55) = 8106479329266892 / 2 ^ 53"
    using double_nearI [where q = 53 and x = "32425917317067569 / 2 ^ 55" and m = 8106479329266892]
    by (simp add: double_grid_def)
  then show "double (7205759403792793 / 2 ^ 53 + 3602879701896397 / 2 ^ 55) = 2026619832316723 / 2 ^ 51"
    by simp
qed

lemma first_wave_on_ninth_call:
  "enemiesSpawned (snd ((Enemy_Spawner_update (double (1 / 10)) ^^ 8)
       (new_Enemy_Spawner 1 (double (8 / 10)), start initial_world))) = 0 \<and>
   enemiesSpawned (snd ((Enemy_Spawner_update (double (1 / 10)) ^^ 9)
       (new_Enemy_Spawner 1 (double (8 / 10)), start initial_world))) = 1"
proof -
  define a :: real where "a = 3602879701896397 / 2 ^ 55"
  define T :: real where "T = 3602879701896397 / 2 ^ 52"
  define v2 :: real where "v2 = 3602879701896397 / 2 ^ 54"
  define v3 :: real where "v3 = 1351079888211149 / 2 ^ 52"
  define v4 :: real where "v4 = 3602879701896397 / 2 ^ 53"
  define v5 :: real where "v5 = 1 / 2"
  define v6 :: real where "v6 = 5404319552844595 / 2 ^ 53"
  define v7 :: real where "v7 = 3152519739159347 / 2 ^ 52"
  define v8 :: real where "v8 = 7205759403792793 / 2 ^ 53"
  define v9 :: real where "v9 = 2026619832316723 / 2 ^ 51"
  define f where "f = (\<lambda>t. double (t + a))"
  have dt: "double (1 / 10) = a" and TT: "double (8 / 10) = T"
    unfolding a_def T_def by (rule tenth_of_a_second(1), rule tenth_of_a_second(2))
  have f: "f 0 = a" "f a = v2" "f v2 = v3" "f v3 = v4" "f v4 = v5"
    "f v5 = v6" "f v6 = v7" "f v7 = v8" "f v8 = v9"
    unfolding f_def a_def v2_def v3_def v4_def v5_def v6_def v7_def v8_def v9_def
    by (rule tenth_of_a_second(3), rule tenth_of_a_second(4), rule tenth_of_a_second(5),
        rule tenth_of_a_second(6), rule tenth_of_a_second(7), rule tenth_of_a_second(8),
        rule tenth_of_a_second(9), rule tenth_of_a_second(10), rule tenth_of_a_second(11))
  have g: "(f ^^ 1) 0 = a" "(f ^^ 2) 0 = v2" "(f ^^ 3) 0 = v3" "(f ^^ 4) 0 = v4"
    "(f ^^ 5) 0 = v5" "(f ^^ 6) 0 = v6" "(f ^^ 7) 0 = v7" "(f ^^ 8) 0 = v8"
    "(f ^^ 9) 0 = v9"
    by (simp_all add: eval_nat_numeral f)
  have c: "a < T" "v2 < T" "v3 < T" "v4 < T" "v5 < T" "v6 < T" "v7 < T" "v8 < T" "T \<le> v9"
    by (simp_all add: a_def T_def v2_def v3_def v4_def v5_def v6_def v7_def v8_def v9_def)
  have "(f ^^ i) 0 < T" if "1 \<le> i \<and> i < 9" for i
  proof -
    from that consider "i = 1" | "i = 2" | "i = 3" | "i = 4" | "i = 5" | "i = 6" | "i = 7" | "i = 8"
      by linarith
    then show ?thesis
      by cases (simp_all only: g c)
  qed
  then have h1: "\<forall>i. 1 \<le> i \<and> i < 9 \<longrightarrow> ((\<lambda>t. double (t + a)) ^^ i) 0 < T"
    unfolding f_def by blast
  have h2: "T \<le> ((\<lambda>t. double (t + a)) ^^ 9) 0"
    using g(9) c(9) unfolding f_def by simp
  have n: "(1::nat) \<le> 9" "(8::nat) < 9"
    by simp_all
  have s: "time_between (new_Enemy_Spawner 1 T) = T" "time_since_spawn (new_Enemy_Spawner 1 T) = 0"
    by (simp_all add: new_Enemy_Spawner_def)
  have e: "enemiesSpawned (start initial_world) = 0"
    by (simp add: start_initial_world)
  have "snd ((Enemy_Spawner_update a ^^ 8) (new_Enemy_Spawner 1 T, start initial_world)) =
          start initial_world"
    unfolding idle_ticks [OF s h1 n(2)] by simp
  moreover have "enemiesSpawned (snd ((Enemy_Spawner_update a ^^ 9)
                   (new_Enemy_Spawner 1 T, start initial_world))) = 1"
    using aligned_cadence [OF h1 h2 n(1), where w = "start initial_world" and k = 1 and E = 1]
    by (simp add: e)
  ultimately show ?thesis
    unfolding dt TT by (simp add: e)
qed

subsection \<open>The driving loop\<close>

lemma ck_refl: "clock_kept w w"
  by (simp add: clock_kept_def)

lemma ck_trans: "clock_kept w w' \<Longrightarrow> clock_kept w' w'' \<Longrightarrow> clock_kept w w''"
  by (simp add: clock_kept_def)

lemma ck_fold:
  assumes "\<And>x w. clock_kept w (f x w)"
  shows "clock_kept w (fold f xs w)"
proof (induction xs arbitrary: w)
  case Nil
  show ?case by (simp add: ck_refl)
next
  case (Cons x xs)
  show ?case
    using ck_trans [OF assms [of w x] Cons.IH [of "f x w"]] by simp
qed

lemma ck_basic:
  "clock_kept w (new_Body b w)"
  "clock_kept w (remove i w)"
  "clock_kept w (damage i d w)"
  "clock_kept w (new_Projectile x y w)"
  "clock_kept w (new_Enemy sp w)"
  "clock_kept w (new_BossEnemy sp w)"
  "clock_kept w (start w)"
  "clock_kept w (flush_removals w)"
  by (simp_all add: clock_kept_def new_Body_def remove_def damage_def new_Projectile_def
        new_Enemy_def new_BossEnemy_def Math_random_def start_def new_Player_def Let_def
        flush_removals_def split: option.splits)

lemma ck_Player_death: "clock_kept w (Player_death i w)"
  by (simp add: clock_kept_def Player_death_def Let_def start_def new_Player_def new_Body_def
        remove_def)

lemma ck_Player_update: "clock_kept w (Player_update dt i w)"
  using ck_Player_death [of w i]
  by (simp add: clock_kept_def Player_update_def Let_def new_Projectile_def new_Body_def
        split: option.splits)

lemma ck_other_updates:
  "clock_kept w (Projectile_update dt i w)"
  "clock_kept w (Enemy_update dt i w)"
  "clock_kept w (BossEnemy_update dt i w)"
  by (simp_all add: clock_kept_def Projectile_update_def Enemy_update_def BossEnemy_update_def
        Let_def remove_def split: option.splits)

lemma ck_entity_update: "clock_kept w (entity_update dt i w)"
  by (simp add: entity_update_def ck_refl ck_Player_update ck_other_updates
        split: option.splits variant.splits)

lemma ck_rules:
  "clock_kept w (rule_Player i j w)"
  "clock_kept w (rule_Enemy i j w)"
  "clock_kept w (rule_BossEnemy_7 i j w)"
  "clock_kept w (rule_BossEnemy_100 i j w)"
  by (simp_all add: clock_kept_def rule_Player_def rule_Enemy_def rule_BossEnemy_7_def
        rule_BossEnemy_100_def Let_def remove_def damage_def split: option.splits)

lemma ck_collide_pair: "clock_kept w (collide_pair i j w)"
proof -
  have "clock_kept w
          (rule_BossEnemy_100 i j (rule_BossEnemy_7 i j (rule_Enemy i j (rule_Player i j w))))"
    by (rule ck_trans [OF ck_trans [OF ck_trans [OF ck_rules(1) ck_rules(2)] ck_rules(3)]
          ck_rules(4)])
  then show ?thesis
    by (simp add: collide_pair_def ck_refl split: option.splits)
qed

lemma ck_Collision_Handler_update: "clock_kept w (Collision_Handler_update w)"
  unfolding Collision_Handler_update_def
  by (intro ck_fold ck_collide_pair)

lemma ck_spawn_unit: "clock_kept (snd sw) (snd (spawn_unit sw))"
  by (simp add: clock_kept_def spawn_unit_def split_def Let_def new_Enemy_def new_BossEnemy_def
        Math_random_def new_Body_def)

lemma ck_spawn_loop: "clock_kept (snd sw) (snd (spawn_loop n sw))"
proof (induction n arbitrary: sw)
  case 0
  show ?case by (simp add: ck_refl)
next
  case (Suc n)
  show ?case
    using ck_trans [OF ck_spawn_unit [of sw] Suc.IH [of "spawn_unit sw"]] by simp
qed

lemma ck_run_spawner: "clock_kept w (run_spawner dt w)"
proof (cases "enemy_spawner w")
  case None
  then show ?thesis
    by (simp add: run_spawner_def ck_refl)
next
  case (Some s)
  show ?thesis
    using ck_spawn_loop [of "(s\<lparr>time_since_spawn := 0\<rparr>, w)" "enemies s"]
    by (simp add: run_spawner_def Some split_def Let_def Enemy_Spawner_update_cases clock_kept_def)
qed

lemma ck_update: "clock_kept w (update dt w)"
proof -
  let ?w1 = "fold (entity_update dt) (entities w) w"
  let ?w2 = "if collision_handler ?w1 then Collision_Handler_update ?w1 else ?w1"
  have 1: "clock_kept w ?w1"
    by (intro ck_fold ck_entity_update)
  have 2: "clock_kept ?w1 ?w2"
    by (simp add: ck_refl ck_Collision_Handler_update)
  have 3: "clock_kept ?w2 (run_spawner dt (flush_removals ?w2))"
    by (rule ck_trans [OF ck_basic(8) ck_run_spawner])
  show ?thesis
    using ck_trans [OF ck_trans [OF 1 2] 3] by (simp add: update_def Let_def)
qed

lemma loop_body_clock:
  "loop_count (loop_body c w) = Suc (loop_count w)" "last_time (loop_body c w) = Some c"
  using ck_update [of w update_rate_seconds]
  by (simp_all add: loop_body_def Let_def clock_kept_def)

text \<open>
  The passes of the \<^verbatim>\<open>while\<close> loop. A pass takes at least half a tick size from
  \<^verbatim>\<open>delta_time\<close> as long as this is at most \<open>2 ^ 52\<close> tick sizes (two million years), so
  the loop ends.
\<close>

lemma delta_after_0 [simp]: "delta_after 0 d = d"
  by (simp add: delta_after_def)

lemma delta_after_Suc: "delta_after (Suc j) d = delta_after j (double (d - update_rate_seconds))"
  unfolding delta_after_def by (simp only: funpow_Suc_right o_apply)




lemma loop_while_passes:
  assumes "\<forall>j<n. update_rate_seconds < delta_after j d"
    and "\<not> update_rate_seconds < delta_after n d"
  shows "loop_while d c w = Some ((loop_body c ^^ n) w)"
  using assms
proof (induction n arbitrary: d w)
  case 0
  then show ?case
    by (simp add: loop_while.simps [of d])
next
  case (Suc n)
  from Suc.prems(1) have t: "update_rate_seconds < d"
    by (metis delta_after_0 zero_less_Suc)
  have 1: "\<forall>j<n. update_rate_seconds < delta_after j (double (d - update_rate_seconds))"
    using Suc.prems(1) by (metis delta_after_Suc Suc_less_eq)
  have 2: "\<not> update_rate_seconds < delta_after n (double (d - update_rate_seconds))"
    using Suc.prems(2) by (simp add: delta_after_Suc)
  have "loop_while d c w = loop_while (double (d - update_rate_seconds)) c (loop_body c w)"
    using t by (simp add: loop_while.simps [of d])
  also have "\<dots> = Some ((loop_body c ^^ n) (loop_body c w))"
    by (rule Suc.IH [OF 1 2])
  finally show ?case
    by (simp add: funpow_swap1)
qed

lemma funpow_loop_body_clock:
  "loop_count ((loop_body c ^^ n) w) = loop_count w + n \<and>
   last_time ((loop_body c ^^ n) w) = (if n = 0 then last_time w else Some c)"
  by (induction n) (simp_all add: loop_body_clock)

lemma loop_passes:
  assumes "lt = (case last_time w of None \<Rightarrow> double (t / 1000) | Some l \<Rightarrow> l)"
    and "delta = double (double (t / 1000) - lt)"
    and "\<forall>j<n. update_rate_seconds < delta_after j delta"
    and "\<not> update_rate_seconds < delta_after n delta"
  shows "loop t w =
           Some ((loop_body (double (t / 1000)) ^^ n)
                   (w\<lparr>last_time := Some lt, timeAlive := double (timeAlive w + delta)\<rparr>))"
  using loop_while_passes [OF assms(3,4)]
  by (simp add: loop_def Let_def assms(1,2))

lemma fold_bind_None: "fold (\<lambda>t r. Option.bind r (f t)) ts None = None"
  by (induction ts) simp_all

lemma callbacks_unfold:
  "callbacks [] w = Some w"
  "callbacks (t # ts) w = Option.bind (loop t w) (callbacks ts)"
proof -
  show "callbacks [] w = Some w"
    by (simp add: callbacks_def)
  show "callbacks (t # ts) w = Option.bind (loop t w) (callbacks ts)"
    by (cases "loop t w") (simp_all add: callbacks_def fold_bind_None)
qed

lemma loop_clock:
  assumes "lt = (case last_time w of None \<Rightarrow> double (t / 1000) | Some l \<Rightarrow> l)"
    and "delta = double (double (t / 1000) - lt)"
    and "\<forall>j<n. update_rate_seconds < delta_after j delta"
    and "\<not> update_rate_seconds < delta_after n delta"
  shows "\<exists>w'. loop t w = Some w' \<and> loop_count w' = loop_count w + n \<and>
           last_time w' = Some (if n = 0 then lt else double (t / 1000))"
  unfolding loop_passes [OF assms]
  using funpow_loop_body_clock [where c = "double (t / 1000)" and n = n
      and w = "w\<lparr>last_time := Some lt, timeAlive := double (timeAlive w + delta)\<rparr>"]
  by simp

lemma start_clock:
  "last_time (start initial_world) = None" "loop_count (start initial_world) = 0"
  by (simp_all add: start_initial_world)





lemma first_callback:
  assumes "last_time w = None"
  shows "\<exists>w'. loop t w = Some w' \<and> loop_count w' = loop_count w \<and>
           last_time w' = Some (double (t / 1000))"
proof -
  have h1: "double (t / 1000) = (case last_time w of None \<Rightarrow> double (t / 1000) | Some l \<Rightarrow> l)"
    by (simp add: assms)
  have h2: "0 = double (double (t / 1000) - double (t / 1000))"
    by simp
  have p: "\<forall>j<0. update_rate_seconds < delta_after j 0" "\<not> update_rate_seconds < delta_after 0 0"
    using tick_positive by simp_all
  from loop_clock [OF h1 h2 p] show ?thesis
    by simp
qed



text \<open>
  The rounding counts. A callback 50 milliseconds after the last tick runs three ticks:
  \<open>0.05\<close> less two tick sizes is, in doubles, still a little more than the tick size
  (in exact arithmetic, with a tick of one sixtieth, it would be equal and the loop
  would stop after two).
\<close>

lemma fifty_ms:
  "double (50 / 1000) = 3602879701896397 / 2 ^ 56"
  "double (3602879701896397 / 2 ^ 56 - 0) = 3602879701896397 / 2 ^ 56"
  "update_rate_seconds < 3602879701896397 / 2 ^ 56"
  "double (3602879701896397 / 2 ^ 56 - update_rate_seconds) = 2401919801264265 / 2 ^ 56"
  "update_rate_seconds < 2401919801264265 / 2 ^ 56"
  "double (2401919801264265 / 2 ^ 56 - update_rate_seconds) = 4803839602528531 / 2 ^ 58"
  "update_rate_seconds < 4803839602528531 / 2 ^ 58"
  "double (4803839602528531 / 2 ^ 58 - update_rate_seconds) = 2 / 2 ^ 58"
  "\<not> update_rate_seconds < 2 / 2 ^ 58"
proof -
  have "double (50 / 1000) = of_int 7205759403792794 / 2 ^ 57"
    by (rule double_nearI) (simp_all add: double_grid_def)
  then show "double (50 / 1000) = 3602879701896397 / 2 ^ 56"
    by simp
  have "double (3602879701896397 / 2 ^ 56) = 3602879701896397 / 2 ^ 56"
    using double_exactI [where x = "3602879701896397 / 2 ^ 56" and m = 3602879701896397 and q = 56]
    by (simp add: double_grid_def)
  then show "double (3602879701896397 / 2 ^ 56 - 0) = 3602879701896397 / 2 ^ 56"
    by simp
  show "update_rate_seconds < 3602879701896397 / 2 ^ 56"
    "update_rate_seconds < 2401919801264265 / 2 ^ 56"
    "update_rate_seconds < 4803839602528531 / 2 ^ 58"
    "\<not> update_rate_seconds < 2 / 2 ^ 58"
    by (simp_all add: tick_size)
  have "double (9607679205057059 / 2 ^ 58) = 4803839602528530 / 2 ^ 57"
    using double_tieI [where q = 57 and x = "9607679205057059 / 2 ^ 58" and f = 4803839602528529]
    by (simp add: double_grid_def)
  then show "double (3602879701896397 / 2 ^ 56 - update_rate_seconds) = 2401919801264265 / 2 ^ 56"
    by (simp add: tick_size)
  have "double (4803839602528531 / 2 ^ 58) = 4803839602528531 / 2 ^ 58"
    using double_exactI [where x = "4803839602528531 / 2 ^ 58" and m = 4803839602528531 and q = 58]
    by (simp add: double_grid_def)
  then show "double (2401919801264265 / 2 ^ 56 - update_rate_seconds) = 4803839602528531 / 2 ^ 58"
    by (simp add: tick_size)
  have "double (2 / 2 ^ 58) = 2 / 2 ^ 58"
    using double_exactI [where x = "2 / 2 ^ 58" and m = 2 and q = 58]
    by (simp add: double_grid_def)
  then show "double (4803839602528531 / 2 ^ 58 - update_rate_seconds) = 2 / 2 ^ 58"
    by (simp add: tick_size)
qed

lemma fifty_ms_runs_three_ticks:
  "map_option loop_count (callbacks [0, 50] (start initial_world)) = Some 3"
proof -
  from first_callback [OF start_clock(1), of 0] obtain w1
    where 1: "loop 0 (start initial_world) = Some w1" "loop_count w1 = 0" "last_time w1 = Some 0"
    by (auto simp: start_clock(2))
  define a :: real where "a = 3602879701896397 / 2 ^ 56"
  have h1: "0 = (case last_time w1 of None \<Rightarrow> double (50 / 1000) | Some l \<Rightarrow> l)"
    by (simp add: 1(3))
  have h2: "a = double (double (50 / 1000) - 0)"
    unfolding fifty_ms(1) a_def by (rule fifty_ms(2) [symmetric])
  have d: "delta_after (Suc 0) a = 2401919801264265 / 2 ^ 56"
    "delta_after (Suc (Suc 0)) a = 4803839602528531 / 2 ^ 58"
    "delta_after (Suc (Suc (Suc 0))) a = 2 / 2 ^ 58"
    unfolding a_def by (simp_all only: delta_after_Suc delta_after_0 fifty_ms(4,6,8))
  have a0: "update_rate_seconds < a"
    unfolding a_def by (rule fifty_ms(3))
  have "update_rate_seconds < delta_after j a" if "j < Suc (Suc (Suc 0))" for j
  proof -
    from that consider "j = 0" | "j = Suc 0" | "j = Suc (Suc 0)"
      by linarith
    then show ?thesis
      by cases (simp_all only: d delta_after_0 a0 fifty_ms(5,7))
  qed
  then have p: "\<forall>j<Suc (Suc (Suc 0)). update_rate_seconds < delta_after j a"
    by blast
  have q: "\<not> update_rate_seconds < delta_after (Suc (Suc (Suc 0))) a"
    unfolding d by (rule fifty_ms(9))
  from loop_clock [OF h1 h2 p q] obtain w2
    where 2: "loop 50 w1 = Some w2" "loop_count w2 = 3"
    by (auto simp: 1(2))
  have "callbacks [0, 50] (start initial_world) = Some w2"
    by (simp add: callbacks_unfold 1(1) 2(1))
  then show ?thesis
    by (simp add: 2(2))
qed

end
